theory Spec2Isabelle
  imports Main
begin

section \<open>The process lifecycle controller of mamba-admin\<close>

text \<open>
  A shallow embedding of \<^verbatim>\<open>src/mamba/scripts/mamba_admin.py\<close>: the functions
  \<^verbatim>\<open>handle_start_command\<close>, \<^verbatim>\<open>handle_stop_command\<close>,
  \<^verbatim>\<open>handle_restart_command\<close> and \<^verbatim>\<open>determine_platform_reactor\<close>.

  The script is Python 2 (\<^verbatim>\<open>'exception' in out\<close> is a test on byte strings), so a
  string is a list of bytes. Everything the functions read from outside is a field of the
  record \<open>env\<close>; everything they do to the outside (writes to standard output, checks of
  the marker file, signals, sleeps, child processes) is appended to the \<open>trace\<close> of the
  state, in program order. \<^verbatim>\<open>sys.exit\<close>, an uncaught exception and
  \<^verbatim>\<open>os.execlp\<close> end the command: they are the \<open>outcome\<close>.
\<close>

subsection \<open>Strings\<close>

definition nl :: string where
  "nl = [CHR 0x0A]"

definition quote :: string where
  "quote = [CHR 0x27]"

text \<open>\<^verbatim>\<open>needle in hay\<close> on strings: \<open>needle\<close> occurs as a contiguous run.\<close>

fun contains :: "string \<Rightarrow> string \<Rightarrow> bool" where
  "contains needle [] = (needle = [])"
| "contains needle (c # cs) =
     (take (length needle) (c # cs) = needle \<or> contains needle cs)"

text \<open>\<^verbatim>\<open>s.ljust(w)\<close>: pad with spaces on the right up to width \<open>w\<close>.\<close>

definition ljust :: "nat \<Rightarrow> string \<Rightarrow> string" where
  "ljust w s = s @ replicate (w - length s) (CHR '' '')"

text \<open>\<^verbatim>\<open>s.split(sep)\<close> for a one-character separator: never empty.\<close>

fun split_on :: "char \<Rightarrow> string \<Rightarrow> string list" where
  "split_on c [] = [[]]"
| "split_on c (x # xs) =
     (if x = c then [] # split_on c xs
      else (case split_on c xs of
              [] \<Rightarrow> [[x]]
            | p # ps \<Rightarrow> (x # p) # ps))"

text \<open>\<^verbatim>\<open>s.rsplit(c, 1)\<close>: split once, at the last occurrence of \<open>c\<close>.\<close>

definition rsplit1 :: "char \<Rightarrow> string \<Rightarrow> string list" where
  "rsplit1 c s =
     (case dropWhile (\<lambda>x. x \<noteq> c) (rev s) of
        [] \<Rightarrow> [s]
      | _ # r \<Rightarrow> [rev r, rev (takeWhile (\<lambda>x. x \<noteq> c) (rev s))])"

text \<open>Decimal digits, for \<^verbatim>\<open>int(pid)\<close> and for formatting the port.\<close>

fun index_of :: "'a \<Rightarrow> 'a list \<Rightarrow> nat option" where
  "index_of x [] = None"
| "index_of x (y # ys) = (if x = y then Some 0 else map_option Suc (index_of x ys))"

definition digit_val :: "char \<Rightarrow> nat option" where
  "digit_val c = index_of c ''0123456789''"

fun digits_val :: "nat \<Rightarrow> string \<Rightarrow> nat option" where
  "digits_val acc [] = Some acc"
| "digits_val acc (c # cs) =
     (case digit_val c of
        None \<Rightarrow> None
      | Some d \<Rightarrow> digits_val (10 * acc + d) cs)"

definition is_space :: "char \<Rightarrow> bool" where
  "is_space c = (c \<in> set [CHR '' '', CHR 0x09, CHR 0x0A, CHR 0x0B, CHR 0x0C, CHR 0x0D])"

definition strip :: "string \<Rightarrow> string" where
  "strip s = rev (dropWhile is_space (rev (dropWhile is_space s)))"

text \<open>
  \<^verbatim>\<open>int(s)\<close> on a string: surrounding whitespace is dropped, then an optional
  sign and at least one decimal digit must remain; anything else raises
  \<^verbatim>\<open>ValueError\<close>, which is \<open>None\<close> here.
\<close>

definition py_int :: "string \<Rightarrow> int option" where
  "py_int s =
     (case strip s of
        [] \<Rightarrow> None
      | c # cs \<Rightarrow>
          if c = CHR ''-'' then
            (if cs = [] then None else map_option (\<lambda>n. - int n) (digits_val 0 cs))
          else if c = CHR ''+'' then
            (if cs = [] then None else map_option int (digits_val 0 cs))
          else map_option int (digits_val 0 (c # cs)))"

text \<open>The digit \<open>d\<close> below ten as a character.\<close>

definition digit_char :: "nat \<Rightarrow> char" where
  "digit_char d = ''0123456789'' ! d"

fun str_nat :: "nat \<Rightarrow> string" where
  "str_nat n = (if n < 10 then [digit_char n] else str_nat (n div 10) @ [digit_char (n mod 10)])"

definition str_int :: "int \<Rightarrow> string" where
  "str_int i = (if i < 0 then CHR ''-'' # str_nat (nat (- i)) else str_nat (nat i))"

subsection \<open>The world outside the script\<close>

text \<open>
  \<^verbatim>\<open>mamba_services.config.Application()\<close>: the application's configuration.
  \<open>reactor\<close> is \<open>None\<close> when the object has no attribute \<^verbatim>\<open>reactor\<close>
  (\<^verbatim>\<open>hasattr\<close> is false).
\<close>

record application =
  port :: "int option"
  auto_select_reactor :: bool
  development :: bool
  reactor :: "string option"

datatype signal = SIGINT

datatype exn = OSError | ValueError | IOError | OverflowError | KeyboardInterrupt

datatype event =
    Stdout string
  | Exists bool
  | Kill int signal
  | Sleep nat
  | Popen "string list"

datatype outcome =
    Return
  | Exit int
  | Raise exn
  | Execlp string "string list"

text \<open>
  The environment of one command. The platform flags \<^verbatim>\<open>POSIX\<close>,
  \<^verbatim>\<open>GNU_LINUX\<close>, \<^verbatim>\<open>BSD\<close>, \<^verbatim>\<open>OSX\<close>, \<^verbatim>\<open>WINDOWS\<close> come from
  \<^verbatim>\<open>mamba.core\<close> and the colouring functions \<^verbatim>\<open>darkred\<close>,
  \<^verbatim>\<open>darkgreen\<close> from \<^verbatim>\<open>mamba.utils.output\<close>; neither module is part of the
  sources at hand, so they are parameters. \<open>import_services\<close> is \<open>None\<close> when
  \<^verbatim>\<open>import_services()\<close> raises \<^verbatim>\<open>ImportError\<close>.

  The marker file, the child processes and the signalled process belong to other
  actors, so they depend on a logical clock: \<open>pid_file env t\<close> is the content of
  \<^verbatim>\<open>twistd.pid\<close> at moment \<open>t\<close> (\<open>None\<close>: no such file), and
  \<open>pid_readable env t\<close> tells whether \<^verbatim>\<open>open().read()\<close> on it succeeds (a file
  that exists may still not be readable: \<^verbatim>\<open>IOError\<close>). \<open>popen env t args\<close> is
  what \<^verbatim>\<open>Popen(args).communicate()\<close> captures as \<open>(out, err)\<close> (\<open>None\<close>: the
  executable cannot be started, \<^verbatim>\<open>OSError\<close>); \<open>execlp env t args\<close> tells whether
  \<^verbatim>\<open>os.execlp('twistd', *args)\<close> replaces the process image (otherwise it
  raises \<^verbatim>\<open>OSError\<close>); and \<open>os_kill env t pid\<close> is the exception that
  \<^verbatim>\<open>os.kill(pid, SIGINT)\<close> raises, \<open>None\<close> when it returns. The clock moves when
  the script yields to the others: a sleep, a signal sent, a child run to its end, and
  the head of start when restart calls it after its loop.
\<close>

record env =
  import_services :: "application option"
  POSIX :: bool
  GNU_LINUX :: bool
  BSD :: bool
  OSX :: bool
  WINDOWS :: bool
  getuid :: nat
  sep :: char
  glob_plugins :: "string list"
  PYTHONHOME :: "string option"
  pid_file :: "nat \<Rightarrow> string option"
  pid_readable :: "nat \<Rightarrow> bool"
  popen :: "nat \<Rightarrow> string list \<Rightarrow> (string \<times> string) option"
  execlp :: "nat \<Rightarrow> string list \<Rightarrow> bool"
  os_kill :: "nat \<Rightarrow> int \<Rightarrow> exn option"
  darkred :: "string \<Rightarrow> string"
  darkgreen :: "string \<Rightarrow> string"

record state =
  now :: nat
  trace :: "event list"

definition emit :: "event list \<Rightarrow> state \<Rightarrow> state" where
  "emit evs s = s\<lparr>trace := trace s @ evs\<rparr>"

definition tick :: "state \<Rightarrow> state" where
  "tick s = s\<lparr>now := Suc (now s)\<rparr>"

text \<open>\<^verbatim>\<open>print(x)\<close> writes \<open>x\<close> and a newline; \<^verbatim>\<open>print(x, end='')\<close> writes \<open>x\<close>.\<close>

definition print :: "string \<Rightarrow> event" where
  "print x = Stdout (x @ nl)"

subsection \<open>The diagnostics\<close>

definition msg_not_in_root :: string where
  "msg_not_in_root =
     ''error: make sure you are inside a mamba application root '' @
     ''directory and then run this command again''"

definition msg_invalid_port :: string where
  "msg_invalid_port =
     ''Your application configuration file does not define a valid '' @
     ''port. Is your configuration file valid JSON format?''"

definition msg_reserved_port :: "string \<Rightarrow> int \<Rightarrow> string" where
  "msg_reserved_port e p =
     ''['' @ e @ '']: This application is configured to use a reserved '' @
     ''port (a port under 1025) only root can open a port from '' @
     ''this range root access is needed to start this '' @
     ''application using the '' @ str_int p @ '' port.'' @ nl @ nl @ ''Try something '' @
     ''like: sudo mamba-admin start'' @ nl @ nl @ ''You can also change the '' @
     ''configuration for this application editing '' @
     quote @ ''config/application.json'' @ quote"

definition msg_no_twisted :: string where
  "msg_no_twisted =
     ''error: twisted directory can'' @ quote @ ''t be found. You should be in '' @
     ''the application directory in order to start it''"

definition msg_pid_found :: string where
  "msg_pid_found =
     ''error: twistd.pid found, seems like the application is '' @
     ''running already. If the application is not running, please '' @
     ''delete twistd.pid and try again''"

definition msg_pid_missing :: string where
  "msg_pid_missing =
     ''error: twistd.pid file can'' @ quote @ ''t be found. You should be in the '' @
     ''applicatin directory in order to stop it''"

definition msg_starting :: "string \<Rightarrow> string" where
  "msg_starting app_name = ljust 73 (''starting application '' @ app_name @ ''...'')"

definition msg_killing :: "string \<Rightarrow> string" where
  "msg_killing pid = ljust 73 (''killing process id '' @ pid @ '' with SIGINT signal'')"

subsection \<open>\<^verbatim>\<open>determine_platform_reactor\<close>\<close>

definition determine_platform_reactor :: "env \<Rightarrow> application \<Rightarrow> string" where
  "determine_platform_reactor env app =
     (case reactor app of
        Some r \<Rightarrow> ''--reactor='' @ r
      | None \<Rightarrow>
          ''--reactor='' @
            (if GNU_LINUX env then ''epoll''
             else if BSD env then ''kqueue''
             else if OSX env then ''cf''
             else if WINDOWS env then ''iocp''
             else ''select''))"

subsection \<open>\<^verbatim>\<open>handle_start_command\<close>\<close>

text \<open>
  Lines 135 to 156, the port check on a POSIX platform: \<open>Some m\<close> when the check prints
  \<open>m\<close> and calls \<^verbatim>\<open>sys.exit(-1)\<close>, \<open>None\<close> when control passes on.
\<close>

definition port_check :: "env \<Rightarrow> application \<Rightarrow> string option" where
  "port_check env app =
     (if POSIX env then
        (case port app of
           None \<Rightarrow> Some msg_invalid_port
         | Some p \<Rightarrow>
             if p \<le> 1024 then
               (if getuid env \<noteq> 0
                then Some (msg_reserved_port (darkred env ''ERROR'') p)
                else None)
             else None)
      else None)"

text \<open>
  Lines 160 to 161:
  \<^verbatim>\<open>glob.glob('twisted/plugins/*.py')[0].split(os.sep)[-1].rsplit('_', 1)[0]\<close>;
  \<open>None\<close> is the \<^verbatim>\<open>IndexError\<close> of an empty glob.
\<close>

definition app_name_of :: "env \<Rightarrow> string option" where
  "app_name_of env =
     (case glob_plugins env of
        [] \<Rightarrow> None
      | p # _ \<Rightarrow> Some (hd (rsplit1 (CHR ''_'') (last (split_on (sep env) p)))))"

text \<open>Line 178: \<^verbatim>\<open>'.heroku' in os.environ.get('PYTHONHOME', '')\<close>.\<close>

definition in_heroku :: "env \<Rightarrow> bool" where
  "in_heroku env =
     contains ''.heroku'' (case PYTHONHOME env of None \<Rightarrow> [] | Some v \<Rightarrow> v)"

text \<open>
  Lines 158 and 180 to 191, the argument vector. \<open>options\<close> is \<open>None\<close> when the argument
  \<^verbatim>\<open>options\<close> is \<^verbatim>\<open>None\<close>, and \<open>Some p\<close> when
  \<^verbatim>\<open>options.subOptions.opts['port']\<close> is the string \<open>p\<close> (empty by default).
\<close>

definition start_args :: "env \<Rightarrow> application \<Rightarrow> string \<Rightarrow> string option \<Rightarrow> string list" where
  "start_args env app app_name options =
     (let args = [''twistd''];
          args = args @ [''--nodaemon''];
          args =
            (if \<not> in_heroku env then
               (let args =
                      (if \<not> auto_select_reactor app
                       then args @ [determine_platform_reactor env app] else args)
                in if \<not> development app
                   then remove1 ''--nodaemon'' args @ [''--syslog''] else args)
             else args);
          args = args @ [app_name]
      in case options of
           None \<Rightarrow> args
         | Some p \<Rightarrow> if p \<noteq> [] then args @ [''--port='' @ p] else args)"

text \<open>
  One pass through the body of \<^verbatim>\<open>handle_start_command\<close> ends the command or reaches
  the recursive call \<^verbatim>\<open>return handle_start_command(options, True)\<close> of line 210.
\<close>

datatype attempt = Done outcome | Retry

text \<open>Lines 205 to 220 once the branch has set \<^verbatim>\<open>result\<close> and \<^verbatim>\<open>exit_code\<close>.\<close>

definition report :: "string \<Rightarrow> int \<Rightarrow> string \<Rightarrow> string \<Rightarrow> state \<Rightarrow> state \<times> attempt" where
  "report result exit_code out err s =
     (emit [print (''['' @ result @ '']''),
            print (if exit_code = - 1 then err else out)] s,
      Done (Exit exit_code))"

text \<open>Lines 196 to 220: the supervised child.\<close>

definition spawn_supervised ::
  "env \<Rightarrow> state \<Rightarrow> string list \<Rightarrow> string \<Rightarrow> bool \<Rightarrow> state \<times> attempt" where
  "spawn_supervised env s args app_name dropin_cache_wa =
     (let s = (if \<not> dropin_cache_wa then emit [Stdout (msg_starting app_name)] s else s);
          s = emit [Popen args] s
      in case popen env (now s) args of
           None \<Rightarrow> (s, Done (Raise OSError))
         | Some (out, err) \<Rightarrow>
             (let s = tick s
              in if err = [] then
                   (if contains ''exception'' out then
                      report (darkred env ''Fail'') (- 1) out err s
                    else if contains ''already installed'' out then (s, Retry)
                    else report (darkgreen env ''Ok'') 0 out err s)
                 else report (darkred env ''Fail'') (- 1) out err s))"

text \<open>
  Lines 125 to 175, the checks before anything is launched: either the command ends
  (\<open>Inl\<close>), or control passes on with the configuration and the application's name.
\<close>

definition start_checks :: "env \<Rightarrow> state \<Rightarrow> (state \<times> outcome) + (state \<times> application \<times> string)" where
  "start_checks env s =
     (case import_services env of
        None \<Rightarrow> Inl (emit [print msg_not_in_root] s, Exit (- 1))
      | Some app \<Rightarrow>
          (case port_check env app of
             Some m \<Rightarrow> Inl (emit [print m] s, Exit (- 1))
           | None \<Rightarrow>
               (case app_name_of env of
                  None \<Rightarrow> Inl (emit [print msg_no_twisted] s, Exit (- 1))
                | Some app_name \<Rightarrow>
                    if pid_file env (now s) \<noteq> None
                    then Inl (emit [Exists True, print msg_pid_found] s, Exit (- 1))
                    else Inr (emit [Exists False] s, app, app_name))))"

definition start_once :: "env \<Rightarrow> state \<Rightarrow> string option \<Rightarrow> bool \<Rightarrow> state \<times> attempt" where
  "start_once env s options dropin_cache_wa =
     (case start_checks env s of
        Inl (s, oc) \<Rightarrow> (s, Done oc)
      | Inr (s, app, app_name) \<Rightarrow>
          (let args = start_args env app app_name options
           in if in_heroku env \<or> development app
              then (if execlp env (now s) args
                    then (s, Done (Execlp ''twistd'' args))
                    else (s, Done (Raise OSError)))
              else spawn_supervised env s args app_name dropin_cache_wa))"

text \<open>
  The function itself. Nothing bounds the recursion of line 210, so the model takes
  fuel, one unit for each call: \<open>None\<close> means that the calls so far have all ended in
  the recursive call.
\<close>

fun handle_start_command ::
  "nat \<Rightarrow> env \<Rightarrow> state \<Rightarrow> string option \<Rightarrow> bool \<Rightarrow> (state \<times> outcome) option" where
  "handle_start_command 0 env s options dropin_cache_wa = None"
| "handle_start_command (Suc fuel) env s options dropin_cache_wa =
     (case start_once env s options dropin_cache_wa of
        (s, Done oc) \<Rightarrow> Some (s, oc)
      | (s, Retry) \<Rightarrow> handle_start_command fuel env s options True)"

subsection \<open>\<^verbatim>\<open>handle_stop_command\<close>\<close>

text \<open>
  Line 244 reads the marker outside the \<^verbatim>\<open>try\<close> and before anything is
  printed. The \<^verbatim>\<open>try\<close> of lines 247 to 252 holds the conversion
  \<^verbatim>\<open>int(pid)\<close> and the signal; its bare \<^verbatim>\<open>except\<close> prints the
  failure and raises again whatever was raised.
\<close>

definition handle_stop_command :: "env \<Rightarrow> state \<Rightarrow> state \<times> outcome" where
  "handle_stop_command env s =
     (case import_services env of
        None \<Rightarrow> (emit [print msg_not_in_root] s, Exit (- 1))
      | Some _ \<Rightarrow>
          (case pid_file env (now s) of
             None \<Rightarrow> (emit [Exists False, print msg_pid_missing] s, Exit (- 1))
           | Some pid \<Rightarrow>
               if \<not> pid_readable env (now s) then (emit [Exists True] s, Raise IOError)
               else
                 (let s = emit [Exists True, Stdout (msg_killing pid)] s
                  in case py_int pid of
                       None \<Rightarrow>
                         (emit [print (''['' @ darkred env ''Fail'' @ '']'')] s, Raise ValueError)
                     | Some n \<Rightarrow>
                         (case os_kill env (now s) n of
                            None \<Rightarrow>
                              (emit [print (''['' @ darkgreen env ''Ok'' @ '']'')]
                                 (tick (emit [Kill n SIGINT] s)), Return)
                          | Some e \<Rightarrow>
                              (emit [print (''['' @ darkred env ''Fail'' @ '']'')]
                                 (tick (emit [Kill n SIGINT] s)), Raise e)))))"

subsection \<open>\<^verbatim>\<open>handle_restart_command\<close>\<close>

text \<open>
  Lines 260 to 261, \<^verbatim>\<open>while os.path.exists('twistd.pid'): time.sleep(0.1)\<close>. The
  loop has no bound, so the model takes fuel, one unit for each check: \<open>None\<close> means
  that every check so far has found the file. \<open>Sleep 100\<close> is the sleep of 0.1 seconds,
  in milliseconds. Between the check that ends the loop (line 260) and the check of
  the marker that start makes itself (line 169) the head of start runs, and the others
  may act: one moment passes, so the marker that the loop saw go may be back.
\<close>

fun wait_marker :: "nat \<Rightarrow> env \<Rightarrow> state \<Rightarrow> state option" where
  "wait_marker 0 env s = None"
| "wait_marker (Suc fuel) env s =
     (if pid_file env (now s) \<noteq> None
      then wait_marker fuel env (tick (emit [Exists True, Sleep 100] s))
      else Some (emit [Exists False] s))"

definition handle_restart_command :: "nat \<Rightarrow> env \<Rightarrow> state \<Rightarrow> (state \<times> outcome) option" where
  "handle_restart_command fuel env s =
     (case handle_stop_command env s of
        (s, Return) \<Rightarrow>
          (case wait_marker fuel env s of
             None \<Rightarrow> None
           | Some s \<Rightarrow> handle_start_command fuel env (tick s) None False)
      | (s, oc) \<Rightarrow> Some (s, oc))"

subsection \<open>Vocabulary of the specification\<close>

text \<open>
  The state reached when the supervised child has run to its end: the progress line
  (unless \<^verbatim>\<open>dropin_cache_wa\<close> is set), the call of \<^verbatim>\<open>Popen\<close>, and
  one step of the clock.
\<close>

definition after_spawn :: "state \<Rightarrow> string list \<Rightarrow> string \<Rightarrow> bool \<Rightarrow> state" where
  "after_spawn s args app_name dropin_cache_wa =
     tick (emit ((if dropin_cache_wa then [] else [Stdout (msg_starting app_name)]) @ [Popen args]) s)"

text \<open>\<open>ends_with ys xs\<close>: the list \<open>xs\<close> ends with the elements \<open>ys\<close>, in that order.\<close>

definition ends_with :: "'a list \<Rightarrow> 'a list \<Rightarrow> bool" where
  "ends_with ys xs = (length ys \<le> length xs \<and> drop (length xs - length ys) xs = ys)"

text \<open>
  Modelled from the spec: \<open>PlatformInfo\<close> and the mapping of its section 4.1,
  \<open>PlatformReactorSelector.select\<close>, in the specification's words. \<open>is_platform\<close>
  reads the flags of \<^verbatim>\<open>mamba.core\<close> as a platform: the flag of that platform is
  set and no other.
\<close>

datatype platform = LINUX | BSD_family | DARWIN | WINDOWS_family | OTHER

definition select_spec :: "string option \<Rightarrow> platform \<Rightarrow> string" where
  "select_spec reactorOverride p =
     (case reactorOverride of
        Some r \<Rightarrow> r
      | None \<Rightarrow>
          (case p of
             LINUX \<Rightarrow> ''epoll''
           | BSD_family \<Rightarrow> ''kqueue''
           | DARWIN \<Rightarrow> ''cf''
           | WINDOWS_family \<Rightarrow> ''iocp''
           | OTHER \<Rightarrow> ''select''))"

definition is_platform :: "env \<Rightarrow> platform \<Rightarrow> bool" where
  "is_platform env p =
     (GNU_LINUX env = (p = LINUX) \<and> BSD env = (p = BSD_family) \<and>
      OSX env = (p = DARWIN) \<and> WINDOWS env = (p = WINDOWS_family))"

text \<open>
  Modelled from the spec: \<open>LaunchOutcome\<close> and the classification of the captured
  output, in the order the specification gives: standard error first, then the two
  substrings of standard output.
\<close>

datatype launch_outcome = Success | AlreadyRunning | Failure string

definition classify_spec :: "string \<Rightarrow> string \<Rightarrow> launch_outcome" where
  "classify_spec out err =
     (if err \<noteq> [] then Failure err
      else if contains ''exception'' out then Failure err
      else if contains ''already installed'' out then AlreadyRunning
      else Success)"

text \<open>
  The state after \<open>k\<close> rounds of the loop of restart followed by the check that finds
  no marker: \<open>k\<close> checks that found it, each followed by a sleep of 100 milliseconds.
\<close>

definition polled :: "nat \<Rightarrow> state \<Rightarrow> state" where
  "polled k s =
     s\<lparr>now := now s + k,
       trace := trace s @ concat (replicate k [Exists True, Sleep 100]) @ [Exists False]\<rparr>"

text \<open>
  \<open>is_port_option a\<close>: the argument \<open>a\<close> is a port override, \<open>--port=\<close> followed by
  a value. \<open>configured_args env\<close> is the argument vector that start builds when it is
  called without options, from the configuration and the plugin found.
\<close>

definition is_port_option :: "string \<Rightarrow> bool" where
  "is_port_option a = (take 7 a = ''--port='')"

definition configured_args :: "env \<Rightarrow> string list option" where
  "configured_args env =
     (case import_services env of
        None \<Rightarrow> None
      | Some app \<Rightarrow>
          (case app_name_of env of
             None \<Rightarrow> None
           | Some name \<Rightarrow> Some (start_args env app name None)))"

subsection \<open>Concrete environments\<close>

text \<open>
  A production application on Linux, run by an ordinary user from the application's
  directory, with no marker file; and variations of it.
\<close>

definition prod_app :: application where
  "prod_app = \<lparr>port = Some 8080, auto_select_reactor = False, development = False, reactor = None\<rparr>"

definition dev_app :: application where
  "dev_app = prod_app\<lparr>development := True\<rparr>"

definition no_port_app :: application where
  "no_port_app = prod_app\<lparr>port := None\<rparr>"

definition low_port_app :: application where
  "low_port_app = prod_app\<lparr>port := Some 80\<rparr>"

definition linux_env :: env where
  "linux_env =
     \<lparr>import_services = Some prod_app, POSIX = True, GNU_LINUX = True, BSD = False,
      OSX = False, WINDOWS = False, getuid = 1000, sep = CHR ''/'',
      glob_plugins = [''twisted/plugins/demo_app_plugin.py''], PYTHONHOME = None,
      pid_file = (\<lambda>t. None), pid_readable = (\<lambda>t. True),
      popen = (\<lambda>t args. Some (''started'', [])),
      execlp = (\<lambda>t args. True),
      os_kill = (\<lambda>t p. None),
      darkred = (\<lambda>x. x), darkgreen = (\<lambda>x. x)\<rparr>"

definition running_env :: env where
  "running_env = linux_env\<lparr>pid_file := (\<lambda>t. Some ''4242'')\<rparr>"

definition retry_env :: env where
  "retry_env =
     linux_env\<lparr>popen := (\<lambda>t args.
        if t = 0 then Some (''reactor already installed'', []) else Some (''started'', []))\<rparr>"

text \<open>
  In \<open>stopping_env\<close> the marker file disappears at the fourth moment after the start
  of the command and stays away; in \<open>flicker_env\<close> it is away at that moment only. In
  \<open>no_exec_env\<close> the application runs in development mode and \<^verbatim>\<open>twistd\<close>
  cannot be executed.
\<close>

definition flicker_env :: env where
  "flicker_env = linux_env\<lparr>pid_file := (\<lambda>t. if t = 4 then None else Some ''4242'')\<rparr>"

definition no_exec_env :: env where
  "no_exec_env = linux_env\<lparr>import_services := Some dev_app, execlp := (\<lambda>t args. False)\<rparr>"

definition stopping_env :: env where
  "stopping_env = linux_env\<lparr>pid_file := (\<lambda>t. if t < 4 then Some ''4242'' else None)\<rparr>"

definition init :: state where
  "init = \<lparr>now = 0, trace = []\<rparr>"

text \<open>The states of a restart in \<open>stopping_env\<close>: after stop, and at the end.\<close>

definition stopped :: state where
  "stopped =
     \<lparr>now = 1,
      trace = [Exists True, Stdout (msg_killing ''4242''), Kill 4242 SIGINT, print ''[Ok]'']\<rparr>"

definition restarted :: state where
  "restarted =
     \<lparr>now = 6,
      trace = [Exists True, Stdout (msg_killing ''4242''), Kill 4242 SIGINT, print ''[Ok]'',
               Exists True, Sleep 100, Exists True, Sleep 100, Exists True, Sleep 100,
               Exists False,
               Exists False, Stdout (msg_starting ''demo_app''),
               Popen [''twistd'', ''--reactor=epoll'', ''--syslog'', ''demo_app''],
               print ''[Ok]'', print ''started'']\<rparr>"

section \<open>Basic facts\<close>

subsection \<open>The substring test\<close>

lemma contains_iff: "contains n h \<longleftrightarrow> (\<exists>p s. h = p @ n @ s)"
proof (induction h)
  case Nil
  then show ?case by auto
next
  case (Cons c cs)
  show ?case
  proof
    assume "contains n (c # cs)"
    then consider "take (length n) (c # cs) = n" | "contains n cs" by auto
    then show "\<exists>p s. c # cs = p @ n @ s"
    proof cases
      case 1
      then have "c # cs = [] @ n @ drop (length n) (c # cs)"
        by (metis append_Nil append_take_drop_id)
      then show ?thesis by blast
    next
      case 2
      then obtain p s where "cs = p @ n @ s" using Cons.IH by blast
      then have "c # cs = (c # p) @ n @ s" by simp
      then show ?thesis by blast
    qed
  next
    assume "\<exists>p s. c # cs = p @ n @ s"
    then obtain p s where ps: "c # cs = p @ n @ s" by blast
    show "contains n (c # cs)"
    proof (cases p)
      case Nil
      then have "take (length n) (c # cs) = n" using ps by simp
      then show ?thesis by simp
    next
      case (Cons a p')
      then have "cs = p' @ n @ s" using ps by simp
      then have "contains n cs" using Cons.IH by blast
      then show ?thesis by simp
    qed
  qed
qed

subsection \<open>State updates\<close>

lemma now_emit [simp]: "now (emit evs s) = now s"
  by (simp add: emit_def)

lemma trace_emit [simp]: "trace (emit evs s) = trace s @ evs"
  by (simp add: emit_def)

lemma now_tick [simp]: "now (tick s) = Suc (now s)"
  by (simp add: tick_def)

lemma trace_tick [simp]: "trace (tick s) = trace s"
  by (simp add: tick_def)

lemma emit_emit [simp]: "emit evs (emit evs' s) = emit (evs' @ evs) s"
  by (simp add: emit_def)

lemma emit_tick: "emit evs (tick s) = tick (emit evs s)"
  by (simp add: emit_def tick_def)

lemma emit_Nil [simp]: "emit [] s = s"
  by (simp add: emit_def)

lemma emit_eq_iff [simp]: "emit evs s = emit evs' s \<longleftrightarrow> evs = evs'"
proof
  assume "emit evs s = emit evs' s"
  then have "trace (emit evs s) = trace (emit evs' s)" by simp
  then show "evs = evs'" by simp
qed simp

subsection \<open>One pass through the body of start\<close>

lemma start_checks_Inr:
  assumes "start_checks env s = Inr (s1, app, name)"
  shows "import_services env = Some app \<and> port_check env app = None \<and>
         app_name_of env = Some name \<and> pid_file env (now s) = None \<and>
         s1 = emit [Exists False] s"
  using assms by (auto simp: start_checks_def split: option.splits if_splits)

lemma start_checks_Inl:
  assumes "start_checks env s = Inl (s1, oc)"
  shows "oc = Exit (- 1) \<and> now s1 = now s \<and>
         (\<exists>evs. s1 = emit evs s \<and> (\<forall>args. Popen args \<notin> set evs))"
  using assms
  by (auto simp: start_checks_def print_def split: option.splits if_splits)

lemma start_checks_pass:
  assumes "import_services env = Some app" and "port_check env app = None"
    and "app_name_of env = Some name" and "pid_file env (now s) = None"
  shows "start_checks env s = Inr (emit [Exists False] s, app, name)"
  using assms by (simp add: start_checks_def)

lemma start_checks_marker:
  assumes "pid_file env (now s) \<noteq> None"
  shows "\<exists>s1. start_checks env s = Inl (s1, Exit (- 1))"
  using assms by (auto simp: start_checks_def split: option.splits)

lemma start_checks_marker_reached:
  assumes "pid_file env (now s) \<noteq> None" and "import_services env = Some app"
    and "port_check env app = None" and "app_name_of env = Some name"
  shows "start_checks env s = Inl (emit [Exists True, print msg_pid_found] s, Exit (- 1))"
  using assms by (auto simp: start_checks_def)

lemma start_once_spawn:
  assumes "start_checks env s = Inr (s1, app, name)" and "\<not> in_heroku env"
    and "\<not> development app"
  shows "start_once env s options d =
           spawn_supervised env s1 (start_args env app name options) name d"
  using assms by (simp add: start_once_def)

lemma start_once_exec:
  assumes "start_checks env s = Inr (s1, app, name)" and "in_heroku env \<or> development app"
  shows "start_once env s options d =
           (s1, Done (if execlp env (now s1) (start_args env app name options)
                      then Execlp ''twistd'' (start_args env app name options)
                      else Raise OSError))"
  using assms by (auto simp: start_once_def)

lemma start_once_abort:
  assumes "start_checks env s = Inl (s1, oc)"
  shows "start_once env s options d = (s1, Done oc)"
  using assms by (simp add: start_once_def)

lemma spawn_supervised_eq:
  assumes "popen env (now s) args = Some (out, err)"
  shows "spawn_supervised env s args app_name d =
     (case classify_spec out err of
        Failure e \<Rightarrow>
          (emit [print (''['' @ darkred env ''Fail'' @ '']''), print e]
             (after_spawn s args app_name d), Done (Exit (- 1)))
      | AlreadyRunning \<Rightarrow> (after_spawn s args app_name d, Retry)
      | Success \<Rightarrow>
          (emit [print (''['' @ darkgreen env ''Ok'' @ '']''), print out]
             (after_spawn s args app_name d), Done (Exit 0)))"
  using assms
  by (simp add: spawn_supervised_def classify_spec_def after_spawn_def report_def Let_def)

lemma start_args_production_eq:
  assumes "\<not> development app" and "\<not> auto_select_reactor app" and "\<not> in_heroku env"
    and "options = None \<or> options = Some []"
  shows "start_args env app app_name options =
           [''twistd'', determine_platform_reactor env app, ''--syslog'', app_name]"
  using assms by (auto simp: start_args_def)

subsection \<open>The concrete environments\<close>

lemma prod_app_fields:
  "\<not> development prod_app" "\<not> auto_select_reactor prod_app" "reactor prod_app = None"
  "port prod_app = Some 8080"
  by (simp_all add: prod_app_def)

lemma linux_env_fields:
  "import_services linux_env = Some prod_app" "POSIX linux_env" "GNU_LINUX linux_env"
  "getuid linux_env = 1000" "pid_file linux_env t = None"
  "darkred linux_env x = x" "darkgreen linux_env x = x"
  "execlp linux_env t a" "pid_readable linux_env t"
  by (simp_all add: linux_env_def)

lemma linux_env_checks:
  "port_check linux_env prod_app = None" "app_name_of linux_env = Some ''demo_app''"
  "\<not> in_heroku linux_env"
  by (simp_all add: linux_env_def prod_app_def port_check_def app_name_of_def
      in_heroku_def rsplit1_def)

lemma linux_env_reactor: "determine_platform_reactor linux_env prod_app = ''--reactor=epoll''"
  by (simp add: determine_platform_reactor_def prod_app_def linux_env_def)

lemma start_checks_linux_env:
  "start_checks linux_env s = Inr (emit [Exists False] s, prod_app, ''demo_app'')"
  by (rule start_checks_pass [OF linux_env_fields(1) linux_env_checks(1,2) linux_env_fields(5)])

lemma start_args_linux_env:
  "start_args linux_env prod_app ''demo_app'' None =
     [''twistd'', ''--reactor=epoll'', ''--syslog'', ''demo_app'']"
  using start_args_production_eq [of prod_app linux_env None "''demo_app''"]
  by (simp add: prod_app_fields linux_env_checks linux_env_reactor)

lemma running_env_fields:
  "import_services running_env = Some prod_app" "pid_file running_env t = Some ''4242''"
  "darkred running_env x = x" "darkgreen running_env x = x" "os_kill running_env t p = None"
  "pid_readable running_env t"
  by (simp_all add: running_env_def linux_env_def)

lemma running_env_checks:
  "port_check running_env prod_app = None" "app_name_of running_env = Some ''demo_app''"
  "\<not> in_heroku running_env"
  by (simp_all add: running_env_def linux_env_def prod_app_def port_check_def app_name_of_def
      in_heroku_def rsplit1_def)

lemma retry_env_fields:
  "import_services retry_env = Some prod_app" "pid_file retry_env t = None"
  "darkred retry_env x = x" "darkgreen retry_env x = x"
  "popen retry_env 0 a = Some (''reactor already installed'', [])"
  "popen retry_env (Suc t) a = Some (''started'', [])"
  by (simp_all add: retry_env_def linux_env_def)

lemma retry_env_checks:
  "port_check retry_env prod_app = None" "app_name_of retry_env = Some ''demo_app''"
  "\<not> in_heroku retry_env"
  by (simp_all add: retry_env_def linux_env_def prod_app_def port_check_def app_name_of_def
      in_heroku_def rsplit1_def)

lemma start_args_retry_env:
  "start_args retry_env prod_app ''demo_app'' None =
     [''twistd'', ''--reactor=epoll'', ''--syslog'', ''demo_app'']"
proof -
  have "determine_platform_reactor retry_env prod_app = ''--reactor=epoll''"
    by (simp add: determine_platform_reactor_def prod_app_def retry_env_def linux_env_def)
  moreover have "start_args retry_env prod_app ''demo_app'' None =
     [''twistd'', determine_platform_reactor retry_env prod_app, ''--syslog'', ''demo_app'']"
    by (rule start_args_production_eq) (simp_all add: prod_app_fields retry_env_checks)
  ultimately show ?thesis by simp
qed

lemma py_int_4242: "py_int ''4242'' = Some 4242"
  by (simp add: py_int_def strip_def is_space_def digit_val_def)

section \<open>The reactor and the argument vector\<close>

text \<open>
  Claim C7, as stated, fails. The claim reads the selector as returning the reactor's name
  (\<open>epoll\<close>, or the override verbatim). \<^verbatim>\<open>determine_platform_reactor\<close> returns the
  option for the child's command line instead: \<open>--reactor=\<close> followed by that name. On
  Linux with no override the two differ.
\<close>

theorem determine_platform_reactor_counterexample:
  "is_platform linux_env LINUX \<and> reactor prod_app = None \<and>
   determine_platform_reactor linux_env prod_app = ''--reactor=epoll'' \<and>
   select_spec (reactor prod_app) LINUX = ''epoll'' \<and>
   determine_platform_reactor linux_env prod_app \<noteq> select_spec (reactor prod_app) LINUX"
  by (simp add: is_platform_def linux_env_def prod_app_def determine_platform_reactor_def
      select_spec_def)

text \<open>
  Claim C7, amended: for every platform, \<^verbatim>\<open>determine_platform_reactor\<close> returns
  \<open>--reactor=\<close> followed by the configured override when there is one, whatever the
  platform, and followed by the platform's default otherwise (Linux \<open>epoll\<close>, BSD
  \<open>kqueue\<close>, Darwin \<open>cf\<close>, Windows \<open>iocp\<close>, any other \<open>select\<close>).
\<close>

theorem determine_platform_reactor_option:
  assumes "is_platform env p"
  shows "determine_platform_reactor env app = ''--reactor='' @ select_spec (reactor app) p"
  using assms
  by (cases p; cases "reactor app")
     (simp_all add: is_platform_def determine_platform_reactor_def select_spec_def)

theorem determine_platform_reactor_option_witness:
  "is_platform (linux_env\<lparr>GNU_LINUX := False, BSD := True\<rparr>) BSD_family \<and>
   determine_platform_reactor (linux_env\<lparr>GNU_LINUX := False, BSD := True\<rparr>) prod_app
     = ''--reactor=kqueue'' \<and>
   determine_platform_reactor (linux_env\<lparr>GNU_LINUX := False, BSD := True\<rparr>)
     (prod_app\<lparr>reactor := Some ''poll''\<rparr>) = ''--reactor=poll''"
proof -
  let ?e = "linux_env\<lparr>GNU_LINUX := False, BSD := True\<rparr>"
  have h: "is_platform ?e BSD_family"
    by (simp add: is_platform_def linux_env_def)
  show ?thesis
    using h determine_platform_reactor_option [OF h, of prod_app]
      determine_platform_reactor_option [OF h, of "prod_app\<lparr>reactor := Some ''poll''\<rparr>"]
    by (simp add: select_spec_def prod_app_def)
qed

text \<open>
  Claim C1, as stated, fails: in production on Linux the vector is
  \<open>twistd --reactor=epoll --syslog demo_app\<close>. The reactor option is appended before
  \<open>--nodaemon\<close> is replaced by \<open>--syslog\<close>, so it comes first; the vector does not end
  with \<open>--syslog\<close>, \<open>--reactor=epoll\<close>, the name.
\<close>

theorem start_args_order_counterexample:
  "\<not> development prod_app \<and> \<not> auto_select_reactor prod_app \<and> GNU_LINUX linux_env \<and>
   \<not> in_heroku linux_env \<and>
   start_args linux_env prod_app ''demo_app'' None =
     [''twistd'', ''--reactor=epoll'', ''--syslog'', ''demo_app''] \<and>
   \<not> ends_with [''--syslog'', ''--reactor=epoll'', ''demo_app'']
       (start_args linux_env prod_app ''demo_app'' None)"
  by (simp add: start_args_linux_env prod_app_fields linux_env_fields linux_env_checks
      ends_with_def)

text \<open>
  Claim C1, amended: when \<^verbatim>\<open>development\<close> and \<^verbatim>\<open>auto_select_reactor\<close> are
  false, the platform is Linux, no reactor is configured, the process is not in the
  managed hosting environment and no port override is given, the argument vector is
  \<open>twistd\<close>, \<open>--reactor=epoll\<close>, \<open>--syslog\<close>, the application's name: it ends with
  \<open>--reactor=epoll\<close>, \<open>--syslog\<close>, the name, in that order, no element before the name
  is \<open>--nodaemon\<close>, and this is the vector the supervised child is started with.
\<close>

theorem start_args_production_linux:
  assumes "\<not> development app" and "\<not> auto_select_reactor app" and "GNU_LINUX env"
    and "reactor app = None" and "\<not> in_heroku env"
    and "options = None \<or> options = Some []"
  shows
    "start_args env app app_name options =
       [''twistd'', ''--reactor=epoll'', ''--syslog'', app_name] \<and>
     ends_with [''--reactor=epoll'', ''--syslog'', app_name]
       (start_args env app app_name options) \<and>
     ''--nodaemon'' \<notin> set (butlast (start_args env app app_name options)) \<and>
     (\<forall>s s1 d. start_checks env s = Inr (s1, app, app_name) \<longrightarrow>
        start_once env s options d =
          spawn_supervised env s1 [''twistd'', ''--reactor=epoll'', ''--syslog'', app_name]
            app_name d)"
proof -
  have r: "determine_platform_reactor env app = ''--reactor=epoll''"
    using assms(3,4) by (simp add: determine_platform_reactor_def)
  have a: "start_args env app app_name options =
       [''twistd'', ''--reactor=epoll'', ''--syslog'', app_name]"
    using start_args_production_eq [OF assms(1,2,5,6), of app_name] r by simp
  have "start_once env s options d =
          spawn_supervised env s1 [''twistd'', ''--reactor=epoll'', ''--syslog'', app_name]
            app_name d"
    if "start_checks env s = Inr (s1, app, app_name)" for s s1 d
    using start_once_spawn [OF that assms(5,1), of options d] a by simp
  then show ?thesis
    using a by (simp add: ends_with_def)
qed

theorem start_args_production_linux_witness:
  "\<not> development prod_app \<and> \<not> auto_select_reactor prod_app \<and> GNU_LINUX linux_env \<and>
   reactor prod_app = None \<and> \<not> in_heroku linux_env \<and>
   start_args linux_env prod_app ''demo_app'' (Some []) =
     [''twistd'', ''--reactor=epoll'', ''--syslog'', ''demo_app''] \<and>
   ends_with [''--reactor=epoll'', ''--syslog'', ''demo_app'']
     (start_args linux_env prod_app ''demo_app'' (Some [])) \<and>
   start_once linux_env init (Some []) False =
     spawn_supervised linux_env (emit [Exists False] init)
       [''twistd'', ''--reactor=epoll'', ''--syslog'', ''demo_app''] ''demo_app'' False"
proof -
  have o: "Some [] = None \<or> Some ([]::string) = Some []" by simp
  note t = start_args_production_linux [OF prod_app_fields(1,2) linux_env_fields(3)
      prod_app_fields(3) linux_env_checks(3) o, of "''demo_app''"]
  show ?thesis
    using t start_checks_linux_env [of init] prod_app_fields linux_env_fields(3)
      linux_env_checks(3)
    by (simp add: ends_with_def)
qed

section \<open>The supervised child\<close>

text \<open>
  Claim C2: in the supervised path the captured output is classified in this order. If
  standard error is not empty the command fails with exit code -1; if it is empty and
  standard output contains \<open>exception\<close> the command fails with exit code -1; otherwise
  if standard output contains \<open>already installed\<close> the start is run again; otherwise the
  command succeeds with exit code 0. The last conjunct says the same against the
  classification in the specification's words.
\<close>

theorem spawn_supervised_classification:
  assumes "popen env (now s) args = Some (out, err)"
  shows
    "(err \<noteq> [] \<longrightarrow>
        spawn_supervised env s args app_name d =
          (emit [print (''['' @ darkred env ''Fail'' @ '']''), print err]
             (after_spawn s args app_name d), Done (Exit (- 1)))) \<and>
     (err = [] \<and> contains ''exception'' out \<longrightarrow>
        spawn_supervised env s args app_name d =
          (emit [print (''['' @ darkred env ''Fail'' @ '']''), print err]
             (after_spawn s args app_name d), Done (Exit (- 1)))) \<and>
     (err = [] \<and> \<not> contains ''exception'' out \<and> contains ''already installed'' out \<longrightarrow>
        spawn_supervised env s args app_name d = (after_spawn s args app_name d, Retry)) \<and>
     (err = [] \<and> \<not> contains ''exception'' out \<and> \<not> contains ''already installed'' out \<longrightarrow>
        spawn_supervised env s args app_name d =
          (emit [print (''['' @ darkgreen env ''Ok'' @ '']''), print out]
             (after_spawn s args app_name d), Done (Exit 0))) \<and>
     spawn_supervised env s args app_name d =
       (case classify_spec out err of
          Failure e \<Rightarrow>
            (emit [print (''['' @ darkred env ''Fail'' @ '']''), print e]
               (after_spawn s args app_name d), Done (Exit (- 1)))
        | AlreadyRunning \<Rightarrow> (after_spawn s args app_name d, Retry)
        | Success \<Rightarrow>
            (emit [print (''['' @ darkgreen env ''Ok'' @ '']''), print out]
               (after_spawn s args app_name d), Done (Exit 0)))"
  using assms
  by (simp add: spawn_supervised_def classify_spec_def after_spawn_def report_def Let_def)

theorem spawn_supervised_classification_witness:
  "spawn_supervised (linux_env\<lparr>popen := (\<lambda>t a. Some (''boom'', ''Traceback''))\<rparr>) init
       [''twistd''] ''demo_app'' False =
     (emit [print ''[Fail]'', print ''Traceback''] (after_spawn init [''twistd''] ''demo_app'' False),
      Done (Exit (- 1))) \<and>
   spawn_supervised (linux_env\<lparr>popen := (\<lambda>t a. Some (''an exception was raised'', []))\<rparr>) init
       [''twistd''] ''demo_app'' False =
     (emit [print ''[Fail]'', print []] (after_spawn init [''twistd''] ''demo_app'' False),
      Done (Exit (- 1))) \<and>
   spawn_supervised (linux_env\<lparr>popen := (\<lambda>t a. Some (''reactor already installed'', []))\<rparr>) init
       [''twistd''] ''demo_app'' False =
     (after_spawn init [''twistd''] ''demo_app'' False, Retry) \<and>
   spawn_supervised (linux_env\<lparr>popen := (\<lambda>t a. Some (''started'', []))\<rparr>) init
       [''twistd''] ''demo_app'' False =
     (emit [print ''[Ok]'', print ''started''] (after_spawn init [''twistd''] ''demo_app'' False),
      Done (Exit 0))"
proof -
  let ?e = "\<lambda>out err. linux_env\<lparr>popen := (\<lambda>t a. Some (out, err))\<rparr>"
  have p: "popen (?e out err) (now init) [''twistd''] = Some (out, err)" for out err
    by simp
  note c = linux_env_fields(6,7)
  have 1: "spawn_supervised (?e ''boom'' ''Traceback'') init [''twistd''] ''demo_app'' False =
     (emit [print ''[Fail]'', print ''Traceback''] (after_spawn init [''twistd''] ''demo_app'' False),
      Done (Exit (- 1)))"
    using spawn_supervised_classification [OF p [of "''boom''" "''Traceback''"], of "''demo_app''" False]
    by (simp add: c)
  have 2: "spawn_supervised (?e ''an exception was raised'' []) init [''twistd''] ''demo_app'' False =
     (emit [print ''[Fail]'', print []] (after_spawn init [''twistd''] ''demo_app'' False),
      Done (Exit (- 1)))"
    using spawn_supervised_classification [OF p [of "''an exception was raised''" "[]"], of "''demo_app''" False]
    by (simp add: c)
  have 3: "spawn_supervised (?e ''reactor already installed'' []) init [''twistd''] ''demo_app'' False =
     (after_spawn init [''twistd''] ''demo_app'' False, Retry)"
    using spawn_supervised_classification [OF p [of "''reactor already installed''" "[]"], of "''demo_app''" False]
    by simp
  have 4: "spawn_supervised (?e ''started'' []) init [''twistd''] ''demo_app'' False =
     (emit [print ''[Ok]'', print ''started''] (after_spawn init [''twistd''] ''demo_app'' False),
      Done (Exit 0))"
    using spawn_supervised_classification [OF p [of "''started''" "[]"], of "''demo_app''" False]
    by (simp add: c)
  show ?thesis using 1 2 3 4 by simp
qed

text \<open>
  Claim C3: whenever the outcome of a launch classifies as \<open>AlreadyRunning\<close>, the call of
  \<^verbatim>\<open>handle_start_command\<close> that launched it ends as exactly one further call does,
  made with the same options and \<^verbatim>\<open>dropin_cache_wa\<close> set, from the state the
  child left: the whole function runs again, its checks included. When that second pass
  ends the command, so does the first call, with the same result.
\<close>

theorem already_running_retries_start:
  assumes "start_checks env s = Inr (s1, app, name)" and "\<not> in_heroku env"
    and "\<not> development app"
    and "popen env (now s1) (start_args env app name options) = Some (out, err)"
    and "classify_spec out err = AlreadyRunning"
  shows
    "handle_start_command (Suc n) env s options d =
       handle_start_command n env
         (after_spawn s1 (start_args env app name options) name d) options True \<and>
     (\<forall>s2 oc.
        start_once env (after_spawn s1 (start_args env app name options) name d) options True
          = (s2, Done oc) \<longrightarrow>
        handle_start_command (Suc (Suc n)) env s options d = Some (s2, oc)) \<and>
     err = [] \<and> contains ''already installed'' out"
proof -
  let ?s = "after_spawn s1 (start_args env app name options) name d"
  have once: "start_once env s options d = (?s, Retry)"
    using assms by (simp add: start_once_spawn spawn_supervised_eq)
  have "err = [] \<and> contains ''already installed'' out"
    using assms(5) by (simp add: classify_spec_def split: if_splits)
  then show ?thesis
    using once by simp
qed

theorem already_running_retries_start_witness:
  "start_checks retry_env init = Inr (emit [Exists False] init, prod_app, ''demo_app'') \<and>
   \<not> in_heroku retry_env \<and> \<not> development prod_app \<and>
   popen retry_env (now (emit [Exists False] init))
     (start_args retry_env prod_app ''demo_app'' None) = Some (''reactor already installed'', []) \<and>
   classify_spec ''reactor already installed'' [] = AlreadyRunning \<and>
   handle_start_command (Suc (Suc 0)) retry_env init None False =
     Some (\<lparr>now = 2,
            trace = [Exists False, Stdout (msg_starting ''demo_app''),
                     Popen [''twistd'', ''--reactor=epoll'', ''--syslog'', ''demo_app''],
                     Exists False,
                     Popen [''twistd'', ''--reactor=epoll'', ''--syslog'', ''demo_app''],
                     print ''[Ok]'', print ''started'']\<rparr>, Exit 0)"
proof -
  let ?a = "[''twistd'', ''--reactor=epoll'', ''--syslog'', ''demo_app'']"
  note chk = start_checks_pass [OF retry_env_fields(1) retry_env_checks(1,2) retry_env_fields(2)]
  have c: "start_checks retry_env init = Inr (emit [Exists False] init, prod_app, ''demo_app'')"
    by (rule chk)
  have h: "\<not> in_heroku retry_env"
    by (rule retry_env_checks)
  have p: "popen retry_env (now (emit [Exists False] init))
     (start_args retry_env prod_app ''demo_app'' None) = Some (''reactor already installed'', [])"
    by (simp add: retry_env_fields init_def)
  have k: "classify_spec ''reactor already installed'' [] = AlreadyRunning"
    by (simp add: classify_spec_def)
  let ?s = "after_spawn (emit [Exists False] init) ?a ''demo_app'' False"
  have c2: "start_checks retry_env ?s = Inr (emit [Exists False] ?s, prod_app, ''demo_app'')"
    by (rule chk)
  have p2: "popen retry_env (now (emit [Exists False] ?s)) ?a = Some (''started'', [])"
    by (simp add: retry_env_fields after_spawn_def)
  have second: "start_once retry_env ?s None True =
      (emit [print ''[Ok]'', print ''started''] (after_spawn (emit [Exists False] ?s) ?a ''demo_app'' True),
       Done (Exit 0))"
    using start_once_spawn [OF c2 h prod_app_fields(1), of None True] p2
    by (simp add: start_args_retry_env spawn_supervised_eq classify_spec_def retry_env_fields)
  have "handle_start_command (Suc (Suc 0)) retry_env init None False =
      Some (emit [print ''[Ok]'', print ''started'']
              (after_spawn (emit [Exists False] ?s) ?a ''demo_app'' True), Exit 0)"
    using already_running_retries_start [OF c h prod_app_fields(1) p k, of 0 False] second
    by (simp add: start_args_retry_env)
  moreover have "emit [print ''[Ok]'', print ''started'']
              (after_spawn (emit [Exists False] ?s) ?a ''demo_app'' True) =
      \<lparr>now = 2,
            trace = [Exists False, Stdout (msg_starting ''demo_app''),
                     Popen ?a, Exists False, Popen ?a, print ''[Ok]'', print ''started'']\<rparr>"
    by (simp add: after_spawn_def emit_def tick_def init_def)
  ultimately show ?thesis using c h p k prod_app_fields(1) by simp
qed

section \<open>The checks before the launch\<close>

text \<open>
  Claim C4, as stated, fails: the marker is looked at only after the import, the port
  check and the search for the plugin. With the marker present and no port configured,
  start ends with the diagnostic of the port, not with the one of the marker.
\<close>

theorem start_marker_present_counterexample:
  "pid_file (running_env\<lparr>import_services := Some no_port_app\<rparr>) (now init) = Some ''4242'' \<and>
   handle_start_command (Suc 0) (running_env\<lparr>import_services := Some no_port_app\<rparr>) init None False
     = Some (emit [print msg_invalid_port] init, Exit (- 1)) \<and>
   [print msg_invalid_port] \<noteq> [Exists True, print msg_pid_found]"
proof -
  let ?e = "running_env\<lparr>import_services := Some no_port_app\<rparr>"
  have "port_check ?e no_port_app = Some msg_invalid_port"
    by (simp add: port_check_def no_port_app_def running_env_def linux_env_def)
  then have "start_checks ?e init = Inl (emit [print msg_invalid_port] init, Exit (- 1))"
    by (simp add: start_checks_def)
  then show ?thesis
    by (simp add: start_once_abort running_env_fields)
qed

text \<open>
  Claim C4, amended: for every invocation of start in which the marker file exists,
  start ends with exit code -1 and launches no child. Which failure it reports is
  decided by the checks in the order of the code: the diagnostic of the application's
  root when the import of the services fails; otherwise the diagnostic of the port
  check when that fails; otherwise the diagnostic of the twisted directory when no
  plugin is found; and otherwise the check of the marker and the diagnostic that
  \<^verbatim>\<open>twistd.pid\<close> was found.
\<close>

theorem start_marker_present_no_spawn:
  assumes "pid_file env (now s) \<noteq> None"
  shows
    "(import_services env = None \<longrightarrow>
        handle_start_command (Suc n) env s options d =
          Some (emit [print msg_not_in_root] s, Exit (- 1))) \<and>
     (\<forall>app m. import_services env = Some app \<and> port_check env app = Some m \<longrightarrow>
        handle_start_command (Suc n) env s options d = Some (emit [print m] s, Exit (- 1))) \<and>
     (\<forall>app. import_services env = Some app \<and> port_check env app = None \<and>
        app_name_of env = None \<longrightarrow>
        handle_start_command (Suc n) env s options d =
          Some (emit [print msg_no_twisted] s, Exit (- 1))) \<and>
     (\<forall>app name. import_services env = Some app \<and> port_check env app = None \<and>
        app_name_of env = Some name \<longrightarrow>
        handle_start_command (Suc n) env s options d =
          Some (emit [Exists True, print msg_pid_found] s, Exit (- 1))) \<and>
     (\<exists>evs. handle_start_command (Suc n) env s options d = Some (emit evs s, Exit (- 1)) \<and>
        (\<forall>args. Popen args \<notin> set evs))"
proof -
  let ?run = "handle_start_command (Suc n) env s options d"
  have 1: "?run = Some (emit [print msg_not_in_root] s, Exit (- 1))"
    if "import_services env = None"
    using that by (simp add: start_once_def start_checks_def)
  have 2: "?run = Some (emit [print m] s, Exit (- 1))"
    if "import_services env = Some app" "port_check env app = Some m" for app m
    using that by (simp add: start_once_def start_checks_def)
  have 3: "?run = Some (emit [print msg_no_twisted] s, Exit (- 1))"
    if "import_services env = Some app" "port_check env app = None" "app_name_of env = None"
    for app
    using that by (simp add: start_once_def start_checks_def)
  have 4: "?run = Some (emit [Exists True, print msg_pid_found] s, Exit (- 1))"
    if "import_services env = Some app" "port_check env app = None"
      "app_name_of env = Some name" for app name
    using start_checks_marker_reached [OF assms that] by (simp add: start_once_abort)
  obtain s1 where c: "start_checks env s = Inl (s1, Exit (- 1))"
    using start_checks_marker [OF assms] by blast
  then obtain evs where evs: "s1 = emit evs s" "\<forall>args. Popen args \<notin> set evs"
    using start_checks_Inl by blast
  have "?run = Some (emit evs s, Exit (- 1))"
    using c evs(1) by (simp add: start_once_abort)
  then have 5: "\<exists>evs. ?run = Some (emit evs s, Exit (- 1)) \<and> (\<forall>args. Popen args \<notin> set evs)"
    using evs(2) by blast
  show ?thesis using 1 2 3 4 5 by blast
qed

theorem start_marker_present_no_spawn_witness:
  "pid_file running_env (now init) \<noteq> None \<and>
   handle_start_command (Suc 0) running_env init None False
     = Some (emit [Exists True, print msg_pid_found] init, Exit (- 1)) \<and>
   pid_file (running_env\<lparr>import_services := None\<rparr>) (now init) \<noteq> None \<and>
   handle_start_command (Suc 0) (running_env\<lparr>import_services := None\<rparr>) init None False
     = Some (emit [print msg_not_in_root] init, Exit (- 1)) \<and>
   pid_file (running_env\<lparr>glob_plugins := []\<rparr>) (now init) \<noteq> None \<and>
   handle_start_command (Suc 0) (running_env\<lparr>glob_plugins := []\<rparr>) init None False
     = Some (emit [print msg_no_twisted] init, Exit (- 1))"
proof -
  let ?i = "running_env\<lparr>import_services := None\<rparr>"
  let ?g = "running_env\<lparr>glob_plugins := []\<rparr>"
  have h: "pid_file running_env (now init) \<noteq> None"
    by (simp add: running_env_fields)
  have hi: "pid_file ?i (now init) \<noteq> None" and ii: "import_services ?i = None"
    by (simp_all add: running_env_fields)
  have hg: "pid_file ?g (now init) \<noteq> None" and ig: "import_services ?g = Some prod_app"
    and pg: "port_check ?g prod_app = None" and ng: "app_name_of ?g = None"
    by (simp_all add: running_env_def linux_env_def prod_app_def port_check_def app_name_of_def)
  have 1: "handle_start_command (Suc 0) running_env init None False
     = Some (emit [Exists True, print msg_pid_found] init, Exit (- 1))"
    using start_marker_present_no_spawn [OF h, of 0 None False]
      running_env_fields(1) running_env_checks(1,2)
    by blast
  have 2: "handle_start_command (Suc 0) ?i init None False
     = Some (emit [print msg_not_in_root] init, Exit (- 1))"
    using start_marker_present_no_spawn [OF hi, of 0 None False] ii by blast
  have 3: "handle_start_command (Suc 0) ?g init None False
     = Some (emit [print msg_no_twisted] init, Exit (- 1))"
    using start_marker_present_no_spawn [OF hg, of 0 None False] ig pg ng by blast
  show ?thesis using h hi hg 1 2 3 by blast
qed

subsection \<open>Which way the child is launched\<close>

lemma start_once_exec_only:
  assumes "start_once env s options d = (s', Done (Execlp f a))"
  shows "\<exists>s1 app name. start_checks env s = Inr (s1, app, name) \<and>
           (in_heroku env \<or> development app) \<and>
           execlp env (now s) (start_args env app name options)"
proof (cases "start_checks env s")
  case (Inl x)
  then obtain s1 oc where "start_checks env s = Inl (s1, oc)" by (cases x) auto
  then show ?thesis using assms start_checks_Inl [of env s s1 oc]
    by (simp add: start_once_abort)
next
  case (Inr x)
  then obtain s1 app name where c: "start_checks env s = Inr (s1, app, name)"
    by (cases x) auto
  have s1: "s1 = emit [Exists False] s" using start_checks_Inr [OF c] by simp
  show ?thesis
  proof (cases "in_heroku env \<or> development app")
    case True
    have "execlp env (now s) (start_args env app name options)"
      using start_once_exec [OF c True, of options d] assms s1
      by (auto split: if_splits)
    then show ?thesis using c True by blast
  next
    case False
    then have "start_once env s options d =
        spawn_supervised env s1 (start_args env app name options) name d"
      using c by (simp add: start_once_spawn)
    then show ?thesis using assms
      by (auto simp: spawn_supervised_def report_def Let_def split: option.splits if_splits)
  qed
qed

lemma start_exec_only:
  assumes "handle_start_command n env s options d = Some (s', Execlp f a)"
  shows "in_heroku env \<or> (\<exists>app. import_services env = Some app \<and> development app)"
  using assms
proof (induction n arbitrary: s d)
  case 0
  then show ?case by simp
next
  case (Suc n)
  obtain s1 att where o: "start_once env s options d = (s1, att)"
    by (cases "start_once env s options d")
  show ?case
  proof (cases att)
    case (Done oc)
    then have "start_once env s options d = (s', Done (Execlp f a))"
      using Suc.prems o by simp
    then obtain s2 app name where "start_checks env s = Inr (s2, app, name)"
      "in_heroku env \<or> development app"
      using start_once_exec_only by blast
    then show ?thesis using start_checks_Inr by blast
  next
    case Retry
    then show ?thesis using Suc o by simp
  qed
qed

text \<open>
  Claim C9, as stated, fails: in development mode, with every check passed, start
  calls \<^verbatim>\<open>os.execlp\<close>; when \<^verbatim>\<open>twistd\<close> cannot be executed the call
  raises \<^verbatim>\<open>OSError\<close>, the process image is not replaced and the exception goes
  back to the caller.
\<close>

theorem start_launch_strategy_counterexample:
  "start_checks no_exec_env init = Inr (emit [Exists False] init, dev_app, ''demo_app'') \<and>
   development dev_app \<and>
   handle_start_command (Suc 0) no_exec_env init None False
     = Some (emit [Exists False] init, Raise OSError)"
proof -
  have f: "import_services no_exec_env = Some dev_app" "pid_file no_exec_env (now init) = None"
    "\<not> execlp no_exec_env t a" for t a
    by (simp_all add: no_exec_env_def linux_env_def)
  have "port_check no_exec_env dev_app = None"
    by (simp add: port_check_def dev_app_def prod_app_def no_exec_env_def linux_env_def)
  moreover have "app_name_of no_exec_env = Some ''demo_app''"
    by (simp add: app_name_of_def no_exec_env_def linux_env_def rsplit1_def)
  ultimately have c: "start_checks no_exec_env init =
      Inr (emit [Exists False] init, dev_app, ''demo_app'')"
    using start_checks_pass [OF f(1) _ _ f(2)] by blast
  have d: "development dev_app" by (simp add: dev_app_def)
  have "start_once no_exec_env init None False = (emit [Exists False] init, Done (Raise OSError))"
    using start_once_exec [OF c, of None False] d f(3) by simp
  then show ?thesis using c d by simp
qed

text \<open>
  Claim C9, amended. Whenever the checks of start pass (the services are imported, the
  port is accepted, the plugin is found, the marker file is absent) and the process is
  in the managed hosting environment or \<^verbatim>\<open>development\<close> is true, start calls
  \<^verbatim>\<open>os.execlp\<close> on the argument vector, with no child process and no captured
  output: the process image is replaced when the call succeeds, and start ends with the
  \<^verbatim>\<open>OSError\<close> of the call when it fails. In every other case in which the checks
  pass, start makes the supervised pass with the same argument vector: it calls
  \<^verbatim>\<open>Popen\<close>, ends with its \<^verbatim>\<open>OSError\<close> when the child cannot be started,
  and otherwise classifies what it captures. Over the whole run, retries included, the
  process image is replaced if and only if the checks of the first pass succeed, the
  process is in the managed hosting environment or \<^verbatim>\<open>development\<close> is true, and
  the call of \<^verbatim>\<open>os.execlp\<close> succeeds. When a check fails, start launches nothing
  and ends with exit code -1.
\<close>

theorem start_launch_strategy:
  "(\<forall>s1 oc. start_checks env s = Inl (s1, oc) \<longrightarrow>
      handle_start_command (Suc n) env s options d = Some (s1, Exit (- 1)) \<and>
      (\<exists>evs. s1 = emit evs s \<and> (\<forall>args. Popen args \<notin> set evs))) \<and>
   (\<forall>s1 app name. start_checks env s = Inr (s1, app, name) \<and>
      (in_heroku env \<or> development app) \<and>
      execlp env (now s) (start_args env app name options) \<longrightarrow>
      handle_start_command (Suc n) env s options d =
        Some (emit [Exists False] s, Execlp ''twistd'' (start_args env app name options))) \<and>
   (\<forall>s1 app name. start_checks env s = Inr (s1, app, name) \<and>
      (in_heroku env \<or> development app) \<and>
      \<not> execlp env (now s) (start_args env app name options) \<longrightarrow>
      handle_start_command (Suc n) env s options d =
        Some (emit [Exists False] s, Raise OSError)) \<and>
   (\<forall>s1 app name. start_checks env s = Inr (s1, app, name) \<and>
      \<not> (in_heroku env \<or> development app) \<longrightarrow>
      start_once env s options d =
        spawn_supervised env (emit [Exists False] s) (start_args env app name options) name d \<and>
      Popen (start_args env app name options)
        \<in> set (trace (fst (start_once env s options d))) \<and>
      (popen env (now s) (start_args env app name options) = None \<longrightarrow>
         snd (start_once env s options d) = Done (Raise OSError)) \<and>
      (\<forall>out err. popen env (now s) (start_args env app name options) = Some (out, err) \<longrightarrow>
         snd (start_once env s options d) =
           (case classify_spec out err of
              Failure e \<Rightarrow> Done (Exit (- 1))
            | AlreadyRunning \<Rightarrow> Retry
            | Success \<Rightarrow> Done (Exit 0)))) \<and>
   ((\<exists>s' f a. handle_start_command (Suc n) env s options d = Some (s', Execlp f a)) \<longleftrightarrow>
    (\<exists>s1 app name. start_checks env s = Inr (s1, app, name) \<and>
       (in_heroku env \<or> development app) \<and>
       execlp env (now s) (start_args env app name options)))"
proof -
  let ?run = "handle_start_command (Suc n) env s options d"
  have A: "?run = Some (s1, Exit (- 1)) \<and>
      (\<exists>evs. s1 = emit evs s \<and> (\<forall>args. Popen args \<notin> set evs))"
    if "start_checks env s = Inl (s1, oc)" for s1 oc
    using start_checks_Inl [OF that] that by (simp add: start_once_abort)
  have B: "?run = Some (emit [Exists False] s, Execlp ''twistd'' (start_args env app name options))"
    if "start_checks env s = Inr (s1, app, name)" "in_heroku env \<or> development app"
      "execlp env (now s) (start_args env app name options)" for s1 app name
    using start_once_exec [OF that(1,2), of options d] start_checks_Inr [OF that(1)] that(3)
    by simp
  have C: "?run = Some (emit [Exists False] s, Raise OSError)"
    if "start_checks env s = Inr (s1, app, name)" "in_heroku env \<or> development app"
      "\<not> execlp env (now s) (start_args env app name options)" for s1 app name
    using start_once_exec [OF that(1,2), of options d] start_checks_Inr [OF that(1)] that(3)
    by simp
  have D: "start_once env s options d =
        spawn_supervised env (emit [Exists False] s) (start_args env app name options) name d \<and>
      Popen (start_args env app name options)
        \<in> set (trace (fst (start_once env s options d))) \<and>
      (popen env (now s) (start_args env app name options) = None \<longrightarrow>
         snd (start_once env s options d) = Done (Raise OSError)) \<and>
      (\<forall>out err. popen env (now s) (start_args env app name options) = Some (out, err) \<longrightarrow>
         snd (start_once env s options d) =
           (case classify_spec out err of
              Failure e \<Rightarrow> Done (Exit (- 1))
            | AlreadyRunning \<Rightarrow> Retry
            | Success \<Rightarrow> Done (Exit 0)))"
    if c: "start_checks env s = Inr (s1, app, name)"
      and no: "\<not> (in_heroku env \<or> development app)" for s1 app name
  proof -
    let ?a = "start_args env app name options"
    let ?s = "emit [Exists False] s"
    have o: "start_once env s options d = spawn_supervised env ?s ?a name d"
      using start_once_spawn [OF c, of options d] no start_checks_Inr [OF c] by simp
    have p: "Popen ?a \<in> set (trace (fst (spawn_supervised env ?s ?a name d)))"
      by (simp add: spawn_supervised_def report_def Let_def split: option.splits)
    have e: "snd (spawn_supervised env ?s ?a name d) = Done (Raise OSError)"
      if "popen env (now s) ?a = None"
      using that by (simp add: spawn_supervised_def Let_def)
    have k: "snd (spawn_supervised env ?s ?a name d) =
           (case classify_spec out err of
              Failure e \<Rightarrow> Done (Exit (- 1))
            | AlreadyRunning \<Rightarrow> Retry
            | Success \<Rightarrow> Done (Exit 0))"
      if "popen env (now s) ?a = Some (out, err)" for out err
    proof -
      have "popen env (now ?s) ?a = Some (out, err)" using that by simp
      then show ?thesis
        by (simp add: spawn_supervised_eq split: launch_outcome.splits)
    qed
    show ?thesis using o p e k by simp
  qed
  have E1: "\<exists>s1 app name. start_checks env s = Inr (s1, app, name) \<and>
       (in_heroku env \<or> development app) \<and>
       execlp env (now s) (start_args env app name options)"
    if r: "?run = Some (s', Execlp f a)" for s' f a
  proof (cases "start_checks env s")
    case (Inl x)
    then obtain s1 oc where "start_checks env s = Inl (s1, oc)" by (cases x) auto
    then show ?thesis using A r by simp
  next
    case (Inr x)
    then obtain s1 app name where c: "start_checks env s = Inr (s1, app, name)"
      by (cases x) auto
    have hd: "in_heroku env \<or> development app"
      using start_exec_only [OF r] start_checks_Inr [OF c] by auto
    have "execlp env (now s) (start_args env app name options)"
    proof (rule ccontr)
      assume "\<not> execlp env (now s) (start_args env app name options)"
      then show False using C [OF c hd] r by simp
    qed
    then show ?thesis using c hd by blast
  qed
  have E2: "\<exists>s' f a. ?run = Some (s', Execlp f a)"
    if "\<exists>s1 app name. start_checks env s = Inr (s1, app, name) \<and>
       (in_heroku env \<or> development app) \<and>
       execlp env (now s) (start_args env app name options)"
    using that B by blast
  have E: "(\<exists>s' f a. ?run = Some (s', Execlp f a)) \<longleftrightarrow>
    (\<exists>s1 app name. start_checks env s = Inr (s1, app, name) \<and>
       (in_heroku env \<or> development app) \<and>
       execlp env (now s) (start_args env app name options))"
    using E1 E2 by blast
  show ?thesis
    apply (intro conjI allI impI)
    subgoal for s1 oc using A by blast
    subgoal for s1 oc using A by blast
    subgoal for s1 app name using B by blast
    subgoal for s1 app name using C by blast
    subgoal for s1 app name using D by blast
    subgoal for s1 app name using D by blast
    subgoal for s1 app name using D by blast
    subgoal for s1 app name out err using D by blast
    subgoal using E by blast
    done
qed

theorem start_launch_strategy_witness:
  "start_checks (linux_env\<lparr>import_services := Some dev_app\<rparr>) init =
     Inr (emit [Exists False] init, dev_app, ''demo_app'') \<and>
   development dev_app \<and>
   handle_start_command (Suc 0) (linux_env\<lparr>import_services := Some dev_app\<rparr>) init None False
     = Some (emit [Exists False] init,
         Execlp ''twistd'' [''twistd'', ''--nodaemon'', ''--reactor=epoll'', ''demo_app'']) \<and>
   start_checks linux_env init = Inr (emit [Exists False] init, prod_app, ''demo_app'') \<and>
   \<not> in_heroku linux_env \<and> \<not> development prod_app \<and>
   Popen [''twistd'', ''--reactor=epoll'', ''--syslog'', ''demo_app'']
     \<in> set (trace (fst (start_once linux_env init None False))) \<and>
   snd (start_once linux_env init None False) = Done (Exit 0) \<and>
   start_checks running_env init =
     Inl (emit [Exists True, print msg_pid_found] init, Exit (- 1)) \<and>
   handle_start_command (Suc 0) running_env init None False =
     Some (emit [Exists True, print msg_pid_found] init, Exit (- 1))"
proof -
  let ?e = "linux_env\<lparr>import_services := Some dev_app\<rparr>"
  have "port_check ?e dev_app = None"
    by (simp add: port_check_def dev_app_def prod_app_def linux_env_def)
  moreover have "app_name_of ?e = Some ''demo_app''"
    by (simp add: app_name_of_def linux_env_def rsplit1_def)
  ultimately have c: "start_checks ?e init = Inr (emit [Exists False] init, dev_app, ''demo_app'')"
    by (simp add: start_checks_def linux_env_fields)
  have d: "development dev_app" by (simp add: dev_app_def)
  have a: "start_args ?e dev_app ''demo_app'' None =
      [''twistd'', ''--nodaemon'', ''--reactor=epoll'', ''demo_app'']"
    using linux_env_checks(3)
    by (simp add: start_args_def in_heroku_def determine_platform_reactor_def dev_app_def
        prod_app_def linux_env_fields)
  have x: "execlp ?e (now init) (start_args ?e dev_app ''demo_app'' None)"
    by (simp add: linux_env_fields)
  note t = start_launch_strategy [of ?e init 0 None False]
  have "handle_start_command (Suc 0) ?e init None False
     = Some (emit [Exists False] init, Execlp ''twistd'' (start_args ?e dev_app ''demo_app'' None))"
    using t c d x by blast
  then have 1: "handle_start_command (Suc 0) ?e init None False
     = Some (emit [Exists False] init,
         Execlp ''twistd'' [''twistd'', ''--nodaemon'', ''--reactor=epoll'', ''demo_app''])"
    by (simp only: a)
  note u = start_launch_strategy [of linux_env init 0 None False]
  have no: "\<not> (in_heroku linux_env \<or> development prod_app)"
    using linux_env_checks(3) prod_app_fields(1) by simp
  have p: "popen linux_env (now init) (start_args linux_env prod_app ''demo_app'' None)
      = Some (''started'', [])"
    by (simp add: linux_env_def)
  have "Popen (start_args linux_env prod_app ''demo_app'' None)
        \<in> set (trace (fst (start_once linux_env init None False)))"
    using u start_checks_linux_env [of init] no by blast
  then have 2: "Popen [''twistd'', ''--reactor=epoll'', ''--syslog'', ''demo_app'']
     \<in> set (trace (fst (start_once linux_env init None False)))"
    by (simp only: start_args_linux_env)
  have "snd (start_once linux_env init None False) =
           (case classify_spec ''started'' [] of
              Failure e \<Rightarrow> Done (Exit (- 1))
            | AlreadyRunning \<Rightarrow> Retry
            | Success \<Rightarrow> Done (Exit 0))"
    using u start_checks_linux_env [of init] no p by blast
  then have 3: "snd (start_once linux_env init None False) = Done (Exit 0)"
    by (simp add: classify_spec_def)
  have r: "start_checks running_env init =
     Inl (emit [Exists True, print msg_pid_found] init, Exit (- 1))"
  proof (rule start_checks_marker_reached)
    show "pid_file running_env (now init) \<noteq> None" by (simp add: running_env_fields)
    show "import_services running_env = Some prod_app" by (rule running_env_fields)
    show "port_check running_env prod_app = None" by (rule running_env_checks)
    show "app_name_of running_env = Some ''demo_app''" by (rule running_env_checks)
  qed
  have 4: "handle_start_command (Suc 0) running_env init None False =
     Some (emit [Exists True, print msg_pid_found] init, Exit (- 1))"
    using start_launch_strategy [of running_env init 0 None False] r by blast
  show ?thesis
    using c d 1 2 3 r 4 start_checks_linux_env [of init] linux_env_checks(3) prod_app_fields(1)
    by blast
qed

section \<open>Stop\<close>

text \<open>
  Claim C5, as stated, fails twice. Outside an application's directory the import
  fails first: with the marker absent, stop ends with exit code -1 and the diagnostic
  of the import, and never looks for the marker. And with a marker whose content is
  not a number, the conversion \<^verbatim>\<open>int(pid)\<close> raises inside the
  \<^verbatim>\<open>try\<close>: no signal is sent, so the signal call raises nothing, yet stop
  prints \<open>[Fail]\<close> and raises.
\<close>

theorem stop_counterexample:
  "pid_file (linux_env\<lparr>import_services := None\<rparr>) (now init) = None \<and>
   handle_stop_command (linux_env\<lparr>import_services := None\<rparr>) init =
     (emit [print msg_not_in_root] init, Exit (- 1)) \<and>
   [print msg_not_in_root] \<noteq> [Exists False, print msg_pid_missing] \<and>
   pid_file (linux_env\<lparr>pid_file := (\<lambda>t. Some ''stale'')\<rparr>) (now init) = Some ''stale'' \<and>
   handle_stop_command (linux_env\<lparr>pid_file := (\<lambda>t. Some ''stale'')\<rparr>) init =
     (emit [Exists True, Stdout (msg_killing ''stale''), print ''[Fail]''] init,
      Raise ValueError)"
proof -
  have "py_int ''stale'' = None"
    by (simp add: py_int_def strip_def is_space_def digit_val_def)
  then show ?thesis
    by (simp add: handle_stop_command_def linux_env_fields)
qed

text \<open>
  Claim C5, amended. When the import of the services fails, stop ends with the
  diagnostic of the application's root and exit code -1, and does not look at the
  marker. Otherwise: if the marker is absent, stop ends with the diagnostic that
  \<^verbatim>\<open>twistd.pid\<close> cannot be found and exit code -1. If the marker exists but
  cannot be read, stop raises the error of the read and prints nothing. If it is read,
  stop prints \<open>killing process id <content> with SIGINT signal\<close>; when the content is
  an integer it then sends SIGINT to that process, and prints \<open>[Ok]\<close> and returns if
  the call raises nothing, and prints \<open>[Fail]\<close> and raises the same exception again
  if it raises; when the content is no integer it sends nothing, prints \<open>[Fail]\<close> and
  raises the error of the conversion. In no case does stop sleep or look at the marker
  a second time: it does not wait for the process to end or for the marker to go.
\<close>

theorem stop_signals_marker_pid:
  "(import_services env = None \<longrightarrow>
      handle_stop_command env s = (emit [print msg_not_in_root] s, Exit (- 1))) \<and>
   (import_services env \<noteq> None \<and> pid_file env (now s) = None \<longrightarrow>
      handle_stop_command env s =
        (emit [Exists False, print msg_pid_missing] s, Exit (- 1))) \<and>
   (\<forall>pid. import_services env \<noteq> None \<and> pid_file env (now s) = Some pid \<and>
      \<not> pid_readable env (now s) \<longrightarrow>
      handle_stop_command env s = (emit [Exists True] s, Raise IOError)) \<and>
   (\<forall>pid n. import_services env \<noteq> None \<and> pid_file env (now s) = Some pid \<and>
      pid_readable env (now s) \<and> py_int pid = Some n \<and> os_kill env (now s) n = None \<longrightarrow>
      handle_stop_command env s =
        (tick (emit [Exists True, Stdout (msg_killing pid), Kill n SIGINT,
                     print (''['' @ darkgreen env ''Ok'' @ '']'')] s), Return)) \<and>
   (\<forall>pid n e. import_services env \<noteq> None \<and> pid_file env (now s) = Some pid \<and>
      pid_readable env (now s) \<and> py_int pid = Some n \<and> os_kill env (now s) n = Some e \<longrightarrow>
      handle_stop_command env s =
        (tick (emit [Exists True, Stdout (msg_killing pid), Kill n SIGINT,
                     print (''['' @ darkred env ''Fail'' @ '']'')] s), Raise e)) \<and>
   (\<forall>pid. import_services env \<noteq> None \<and> pid_file env (now s) = Some pid \<and>
      pid_readable env (now s) \<and> py_int pid = None \<longrightarrow>
      handle_stop_command env s =
        (emit [Exists True, Stdout (msg_killing pid),
               print (''['' @ darkred env ''Fail'' @ '']'')] s, Raise ValueError)) \<and>
   (\<exists>evs. trace (fst (handle_stop_command env s)) = trace s @ evs \<and>
      (\<forall>ms. Sleep ms \<notin> set evs) \<and> (\<forall>b. Exists b \<notin> set (tl evs)))"
  by (auto simp: handle_stop_command_def emit_tick print_def Let_def split: option.splits)

theorem stop_signals_marker_pid_witness:
  "import_services running_env \<noteq> None \<and>
   pid_file running_env (now init) = Some ''4242'' \<and> pid_readable running_env (now init) \<and>
   py_int ''4242'' = Some 4242 \<and> os_kill running_env (now init) 4242 = None \<and>
   handle_stop_command running_env init =
     (tick (emit [Exists True, Stdout (msg_killing ''4242''), Kill 4242 SIGINT,
                  print ''[Ok]''] init), Return) \<and>
   import_services linux_env \<noteq> None \<and> pid_file linux_env (now init) = None \<and>
   handle_stop_command linux_env init =
     (emit [Exists False, print msg_pid_missing] init, Exit (- 1)) \<and>
   \<not> pid_readable (running_env\<lparr>pid_readable := (\<lambda>t. False)\<rparr>) (now init) \<and>
   handle_stop_command (running_env\<lparr>pid_readable := (\<lambda>t. False)\<rparr>) init =
     (emit [Exists True] init, Raise IOError) \<and>
   os_kill (running_env\<lparr>os_kill := (\<lambda>t p. Some OSError)\<rparr>) (now init) 4242 = Some OSError \<and>
   handle_stop_command (running_env\<lparr>os_kill := (\<lambda>t p. Some OSError)\<rparr>) init =
     (tick (emit [Exists True, Stdout (msg_killing ''4242''), Kill 4242 SIGINT,
                  print ''[Fail]''] init), Raise OSError)"
proof -
  let ?u = "running_env\<lparr>pid_readable := (\<lambda>t. False)\<rparr>"
  let ?k = "running_env\<lparr>os_kill := (\<lambda>t p. Some OSError)\<rparr>"
  note i = py_int_4242
  have r: "import_services running_env \<noteq> None" "pid_file running_env (now init) = Some ''4242''"
    "pid_readable running_env (now init)" "os_kill running_env (now init) 4242 = None"
    by (simp_all add: running_env_fields)
  have l: "import_services linux_env \<noteq> None" "pid_file linux_env (now init) = None"
    by (simp_all add: linux_env_fields)
  have u: "import_services ?u \<noteq> None" "pid_file ?u (now init) = Some ''4242''"
    "\<not> pid_readable ?u (now init)"
    by (simp_all add: running_env_fields)
  have k: "import_services ?k \<noteq> None" "pid_file ?k (now init) = Some ''4242''"
    "pid_readable ?k (now init)" "os_kill ?k (now init) 4242 = Some OSError"
    "darkred ?k x = x" for x
    by (simp_all add: running_env_fields)
  have "handle_stop_command running_env init =
     (tick (emit [Exists True, Stdout (msg_killing ''4242''), Kill 4242 SIGINT,
                  print (''['' @ darkgreen running_env ''Ok'' @ '']'')] init), Return)"
    using stop_signals_marker_pid [of running_env init] r i by blast
  then have 1: "handle_stop_command running_env init =
     (tick (emit [Exists True, Stdout (msg_killing ''4242''), Kill 4242 SIGINT,
                  print ''[Ok]''] init), Return)"
    by (simp add: running_env_fields)
  have 2: "handle_stop_command linux_env init =
     (emit [Exists False, print msg_pid_missing] init, Exit (- 1))"
    using stop_signals_marker_pid [of linux_env init] l by blast
  have 3: "handle_stop_command ?u init = (emit [Exists True] init, Raise IOError)"
    using stop_signals_marker_pid [of ?u init] u by blast
  have "handle_stop_command ?k init =
     (tick (emit [Exists True, Stdout (msg_killing ''4242''), Kill 4242 SIGINT,
                  print (''['' @ darkred ?k ''Fail'' @ '']'')] init), Raise OSError)"
    using stop_signals_marker_pid [of ?k init] k(1-4) i by blast
  then have 4: "handle_stop_command ?k init =
     (tick (emit [Exists True, Stdout (msg_killing ''4242''), Kill 4242 SIGINT,
                  print ''[Fail]''] init), Raise OSError)"
    by (simp only: k(5)) simp
  show ?thesis using r l u(3) k(4) i 1 2 3 4 by blast
qed

section \<open>The port check\<close>

lemma spawn_supervised_trace:
  "\<exists>evs. trace (fst (spawn_supervised env s args name d)) = trace s @ evs"
  by (simp add: spawn_supervised_def report_def Let_def split: option.splits)

lemma start_once_trace:
  "\<exists>evs. trace (fst (start_once env s options d)) = trace s @ evs"
proof (cases "start_checks env s")
  case (Inl x)
  then obtain s1 oc where c: "start_checks env s = Inl (s1, oc)" by (cases x) auto
  then show ?thesis using start_checks_Inl [OF c] by (auto simp: start_once_abort)
next
  case (Inr x)
  then obtain s1 app name where c: "start_checks env s = Inr (s1, app, name)"
    by (cases x) auto
  have s1: "s1 = emit [Exists False] s" using start_checks_Inr [OF c] by simp
  show ?thesis
  proof (cases "in_heroku env \<or> development app")
    case True
    then show ?thesis using start_once_exec [OF c True] s1 by simp
  next
    case False
    obtain evs where
      "trace (fst (spawn_supervised env s1 (start_args env app name options) name d))
         = trace s1 @ evs"
      using spawn_supervised_trace by blast
    then show ?thesis using start_once_spawn [OF c, of options d] False s1 by simp
  qed
qed

lemma start_trace:
  assumes "handle_start_command n env s options d = Some (s', oc)"
  shows "\<exists>evs. trace s' = trace s @ evs"
  using assms
proof (induction n arbitrary: s d)
  case 0
  then show ?case by simp
next
  case (Suc n)
  obtain s1 att where o: "start_once env s options d = (s1, att)"
    by (cases "start_once env s options d")
  obtain evs where e: "trace s1 = trace s @ evs"
    using start_once_trace [of env s options d] o by auto
  show ?case
  proof (cases att)
    case (Done oc')
    then show ?thesis using Suc.prems o e by auto
  next
    case Retry
    then have "handle_start_command n env s1 options True = Some (s', oc)"
      using Suc.prems o by simp
    then obtain evs' where "trace s' = trace s1 @ evs'" using Suc.IH by blast
    then show ?thesis using e by simp
  qed
qed

lemma msg_reserved_port_neq:
  "msg_reserved_port e p \<noteq> msg_invalid_port" "msg_reserved_port e p \<noteq> msg_no_twisted"
  by (simp_all add: msg_reserved_port_def msg_invalid_port_def msg_no_twisted_def)

lemma print_inject [simp]: "print a = print b \<longleftrightarrow> a = b"
  by (simp add: print_def)

lemma port_check_fails:
  assumes "import_services env = Some app" and "port_check env app = Some m"
  shows "handle_start_command (Suc n) env s options d = Some (emit [print m] s, Exit (- 1))"
  using assms by (simp add: start_once_def start_checks_def)

lemma port_check_passes_not_reserved:
  assumes "import_services env = Some app" and "port_check env app = None"
  shows "handle_start_command (Suc n) env s options d \<noteq>
           Some (emit [print (msg_reserved_port e p)] s, Exit (- 1))"
proof (cases "start_checks env s")
  case (Inl x)
  then obtain s1 oc where c: "start_checks env s = Inl (s1, oc)" by (cases x) auto
  then have "s1 = emit [print msg_no_twisted] s \<or> s1 = emit [Exists True, print msg_pid_found] s"
    using assms by (auto simp: start_checks_def split: option.splits if_splits)
  then show ?thesis using c msg_reserved_port_neq(2) [of e p]
    by (auto simp: start_once_abort print_def)
next
  case (Inr x)
  then obtain s1 app' name where c: "start_checks env s = Inr (s1, app', name)"
    by (cases x) auto
  have s1: "s1 = emit [Exists False] s" using start_checks_Inr [OF c] by simp
  show ?thesis
  proof
    assume a: "handle_start_command (Suc n) env s options d =
           Some (emit [print (msg_reserved_port e p)] s, Exit (- 1))"
    obtain s2 att where o: "start_once env s options d = (s2, att)"
      by (cases "start_once env s options d")
    have "\<exists>evs. trace s2 = trace s1 @ evs"
    proof (cases "in_heroku env \<or> development app'")
      case True
      then show ?thesis using start_once_exec [OF c True, of options d] o by simp
    next
      case False
      then show ?thesis
        using start_once_spawn [OF c, of options d] o
          spawn_supervised_trace [of env s1 "start_args env app' name options" name d]
        by (metis fst_conv)
    qed
    then obtain evs where e: "trace s2 = trace s @ Exists False # evs" using s1 by auto
    have "\<exists>evs'. trace (emit [print (msg_reserved_port e p)] s) = trace s2 @ evs'"
    proof (cases att)
      case (Done oc)
      then show ?thesis using a o by auto
    next
      case Retry
      then show ?thesis using a o start_trace [of n env s2 options True] by auto
    qed
    then show False using e by (auto simp: print_def)
  qed
qed

text \<open>
  Claim C6: on a POSIX platform, with the configuration at hand, start ends with exit
  code -1 and the diagnostic of the missing port, before any child is launched, when no
  port is configured; it ends with the diagnostic of the reserved port if and only if
  the configured port is at most 1024 and the user is not root (then with exit code -1,
  and nothing launched); and for every port above 1024 the port check passes, whoever
  the user is. Whatever the port check reports, start prints it, launches nothing and
  ends with exit code -1.
\<close>

theorem start_port_validation:
  assumes "import_services env = Some app" and "POSIX env"
  shows
    "(port app = None \<longrightarrow>
        handle_start_command (Suc n) env s options d =
          Some (emit [print msg_invalid_port] s, Exit (- 1))) \<and>
     (\<forall>p. port app = Some p \<and> p \<le> 1024 \<and> getuid env \<noteq> 0 \<longrightarrow>
        handle_start_command (Suc n) env s options d =
          Some (emit [print (msg_reserved_port (darkred env ''ERROR'') p)] s, Exit (- 1))) \<and>
     ((\<exists>p. handle_start_command (Suc n) env s options d =
          Some (emit [print (msg_reserved_port (darkred env ''ERROR'') p)] s, Exit (- 1)))
        \<longleftrightarrow> (\<exists>p. port app = Some p \<and> p \<le> 1024 \<and> getuid env \<noteq> 0)) \<and>
     (\<forall>p. port app = Some p \<and> 1024 < p \<longrightarrow> port_check env app = None) \<and>
     (\<forall>m. port_check env app = Some m \<longrightarrow>
        handle_start_command (Suc n) env s options d = Some (emit [print m] s, Exit (- 1)))"
proof -
  let ?run = "handle_start_command (Suc n) env s options d"
  let ?denied = "\<lambda>p. Some (emit [print (msg_reserved_port (darkred env ''ERROR'') p)] s, Exit (- 1))"
  have fails: "?run = Some (emit [print m] s, Exit (- 1))" if "port_check env app = Some m" for m
    using port_check_fails [OF assms(1) that] .
  have missing: "?run = Some (emit [print msg_invalid_port] s, Exit (- 1))" if "port app = None"
    using that assms(2) by (intro fails) (simp add: port_check_def)
  have denied: "?run = ?denied p" if "port app = Some p" "p \<le> 1024" "getuid env \<noteq> 0" for p
    using that assms(2) by (intro fails) (simp add: port_check_def)
  have high: "port_check env app = None" if "port app = Some p" "1024 < p" for p
    using that by (simp add: port_check_def)
  have only: "\<exists>p. port app = Some p \<and> p \<le> 1024 \<and> getuid env \<noteq> 0" if r: "?run = ?denied q" for q
  proof (rule ccontr)
    assume n: "\<not> (\<exists>p. port app = Some p \<and> p \<le> 1024 \<and> getuid env \<noteq> 0)"
    show False
    proof (cases "port app")
      case None
      then have "msg_reserved_port (darkred env ''ERROR'') q = msg_invalid_port"
        using missing r by simp
      then show ?thesis using msg_reserved_port_neq(1) by blast
    next
      case (Some p)
      then have "port_check env app = None" using n by (auto simp: port_check_def)
      then show ?thesis using port_check_passes_not_reserved [OF assms(1)] r by blast
    qed
  qed
  show ?thesis using fails missing denied high only by blast
qed

theorem start_port_validation_witness:
  "import_services (linux_env\<lparr>import_services := Some low_port_app\<rparr>) = Some low_port_app \<and>
   POSIX (linux_env\<lparr>import_services := Some low_port_app\<rparr>) \<and>
   port low_port_app = Some 80 \<and>
   handle_start_command (Suc 0) (linux_env\<lparr>import_services := Some low_port_app\<rparr>) init None False
     = Some (emit [print (msg_reserved_port ''ERROR'' 80)] init, Exit (- 1)) \<and>
   import_services (linux_env\<lparr>import_services := Some no_port_app\<rparr>) = Some no_port_app \<and>
   port no_port_app = None \<and>
   handle_start_command (Suc 0) (linux_env\<lparr>import_services := Some no_port_app\<rparr>) init None False
     = Some (emit [print msg_invalid_port] init, Exit (- 1)) \<and>
   import_services linux_env = Some prod_app \<and> port prod_app = Some 8080 \<and>
   port_check linux_env prod_app = None"
proof -
  let ?low = "linux_env\<lparr>import_services := Some low_port_app\<rparr>"
  let ?none = "linux_env\<lparr>import_services := Some no_port_app\<rparr>"
  have l: "import_services ?low = Some low_port_app" "POSIX ?low" "getuid ?low \<noteq> 0"
    "darkred ?low ''ERROR'' = ''ERROR''" "port low_port_app = Some 80"
    by (simp_all add: linux_env_def low_port_app_def)
  have n: "import_services ?none = Some no_port_app" "POSIX ?none" "port no_port_app = None"
    by (simp_all add: linux_env_def no_port_app_def)
  have 1: "handle_start_command (Suc 0) ?low init None False
     = Some (emit [print (msg_reserved_port ''ERROR'' 80)] init, Exit (- 1))"
    using start_port_validation [OF l(1,2), of 0 init None False] l(3,4,5) by simp
  have 2: "handle_start_command (Suc 0) ?none init None False
     = Some (emit [print msg_invalid_port] init, Exit (- 1))"
    using start_port_validation [OF n(1,2), of 0 init None False] n(3) by simp
  have 3: "port_check linux_env prod_app = None"
    using start_port_validation [OF linux_env_fields(1,2), of 0 init None False]
      prod_app_fields(4) by simp
  show ?thesis
    using 1 2 3 l n linux_env_fields(1) prod_app_fields(4) by simp
qed

section \<open>Restart\<close>

subsection \<open>The loop\<close>

lemma polled_0: "polled 0 s = emit [Exists False] s"
  by (simp add: polled_def emit_def)

lemma polled_Suc: "polled (Suc k) s = polled k (tick (emit [Exists True, Sleep 100] s))"
  by (simp add: polled_def emit_def tick_def)

lemma now_polled [simp]: "now (polled k s) = now s + k"
  by (simp add: polled_def)

lemma wait_marker_found:
  assumes "\<forall>i<k. pid_file env (now s + i) \<noteq> None" and "pid_file env (now s + k) = None"
    and "k < fuel"
  shows "wait_marker fuel env s = Some (polled k s)"
  using assms
proof (induction k arbitrary: s fuel)
  case 0
  then obtain f where "fuel = Suc f" by (cases fuel) auto
  then show ?case using 0 by (simp add: polled_0)
next
  case (Suc k)
  then obtain f where f: "fuel = Suc f" "k < f" by (cases fuel) auto
  let ?s = "tick (emit [Exists True, Sleep 100] s)"
  have here: "pid_file env (now s) \<noteq> None" using Suc.prems(1) by force
  have "\<forall>i<k. pid_file env (now ?s + i) \<noteq> None"
  proof (intro allI impI)
    fix i assume "i < k"
    then have "Suc i < Suc k" by simp
    then have "pid_file env (now s + Suc i) \<noteq> None" using Suc.prems(1) by blast
    then show "pid_file env (now ?s + i) \<noteq> None" by simp
  qed
  moreover have "pid_file env (now ?s + k) = None" using Suc.prems(2) by simp
  ultimately have "wait_marker f env ?s = Some (polled k ?s)"
    using Suc.IH f(2) by blast
  then show ?case using here f(1) by (simp add: polled_Suc)
qed

lemma wait_marker_never:
  assumes "\<forall>i. pid_file env (now s + i) \<noteq> None"
  shows "wait_marker fuel env s = None"
  using assms
proof (induction fuel arbitrary: s)
  case 0
  then show ?case by simp
next
  case (Suc fuel)
  let ?s = "tick (emit [Exists True, Sleep 100] s)"
  have here: "pid_file env (now s) \<noteq> None" using Suc.prems by (metis add_0_right)
  have "\<forall>i. pid_file env (now ?s + i) \<noteq> None"
  proof
    fix i
    have "pid_file env (now s + Suc i) \<noteq> None" using Suc.prems by blast
    then show "pid_file env (now ?s + i) \<noteq> None" by simp
  qed
  then have "wait_marker fuel env ?s = None" using Suc.IH by blast
  then show ?case using here by simp
qed

subsection \<open>A restart that waits three rounds\<close>

lemma stopping_env_fields:
  "import_services stopping_env = Some prod_app"
  "pid_file stopping_env 0 = Some ''4242''" "pid_file stopping_env 1 = Some ''4242''"
  "pid_file stopping_env 2 = Some ''4242''" "pid_file stopping_env 3 = Some ''4242''"
  "pid_file stopping_env 4 = None"
  "darkred stopping_env x = x" "darkgreen stopping_env x = x" "os_kill stopping_env t p = None"
  "popen stopping_env t a = Some (''started'', [])" "pid_file stopping_env 5 = None"
  "pid_readable stopping_env t"
  by (simp_all add: stopping_env_def linux_env_def)

lemma stopping_env_checks:
  "port_check stopping_env prod_app = None" "app_name_of stopping_env = Some ''demo_app''"
  "\<not> in_heroku stopping_env"
  by (simp_all add: stopping_env_def linux_env_def prod_app_def port_check_def app_name_of_def
      in_heroku_def rsplit1_def)

lemma start_args_stopping_env:
  "start_args stopping_env prod_app ''demo_app'' None =
     [''twistd'', ''--reactor=epoll'', ''--syslog'', ''demo_app'']"
proof -
  have "determine_platform_reactor stopping_env prod_app = ''--reactor=epoll''"
    by (simp add: determine_platform_reactor_def prod_app_def stopping_env_def linux_env_def)
  moreover have "start_args stopping_env prod_app ''demo_app'' None =
     [''twistd'', determine_platform_reactor stopping_env prod_app, ''--syslog'', ''demo_app'']"
    by (rule start_args_production_eq) (simp_all add: prod_app_fields stopping_env_checks)
  ultimately show ?thesis by simp
qed

lemma stop_stopping_env: "handle_stop_command stopping_env init = (stopped, Return)"
  by (simp add: handle_stop_command_def stopping_env_fields py_int_4242 init_def stopped_def
      emit_def tick_def)

lemma start_stopping_env:
  "handle_start_command (Suc n) stopping_env (tick (polled 3 stopped)) None False
     = Some (restarted, Exit 0)"
proof -
  let ?s = "tick (polled 3 stopped)"
  have "pid_file stopping_env (now ?s) = None"
    by (simp add: stopped_def stopping_env_fields)
  then have c: "start_checks stopping_env ?s = Inr (emit [Exists False] ?s, prod_app, ''demo_app'')"
    using start_checks_pass [OF stopping_env_fields(1) stopping_env_checks(1,2)] by blast
  have "start_once stopping_env ?s None False =
      (emit [print ''[Ok]'', print ''started'']
         (after_spawn (emit [Exists False] ?s)
            [''twistd'', ''--reactor=epoll'', ''--syslog'', ''demo_app''] ''demo_app'' False),
       Done (Exit 0))"
    using start_once_spawn [OF c stopping_env_checks(3) prod_app_fields(1), of None False]
    by (simp add: start_args_stopping_env spawn_supervised_eq stopping_env_fields
        classify_spec_def)
  moreover have "emit [print ''[Ok]'', print ''started'']
         (after_spawn (emit [Exists False] ?s)
            [''twistd'', ''--reactor=epoll'', ''--syslog'', ''demo_app''] ''demo_app'' False)
       = restarted"
    by (simp add: restarted_def stopped_def polled_def after_spawn_def emit_def tick_def
        numeral_3_eq_3)
  ultimately show ?thesis by simp
qed

lemma restart_stopping_env:
  "handle_restart_command 5 stopping_env init = Some (restarted, Exit 0)"
proof -
  have "\<forall>i<3. pid_file stopping_env (now stopped + i) \<noteq> None"
    "pid_file stopping_env (now stopped + 3) = None"
    by (simp_all add: stopping_env_def stopped_def)
  then have "wait_marker 5 stopping_env stopped = Some (polled 3 stopped)"
    by (intro wait_marker_found) simp_all
  moreover have "handle_start_command 5 stopping_env (tick (polled 3 stopped)) None False
      = Some (restarted, Exit 0)"
    using start_stopping_env [of 4] by (simp add: eval_nat_numeral)
  ultimately show ?thesis
    by (simp add: handle_restart_command_def stop_stopping_env)
qed

subsection \<open>A marker that comes back\<close>

lemma flicker_env_fields:
  "import_services flicker_env = Some prod_app"
  "pid_file flicker_env 0 = Some ''4242''" "pid_file flicker_env 4 = None"
  "pid_file flicker_env 5 = Some ''4242''"
  "darkred flicker_env x = x" "darkgreen flicker_env x = x" "os_kill flicker_env t p = None"
  "pid_readable flicker_env t"
  by (simp_all add: flicker_env_def linux_env_def)

lemma flicker_env_checks:
  "port_check flicker_env prod_app = None" "app_name_of flicker_env = Some ''demo_app''"
  by (simp_all add: flicker_env_def linux_env_def prod_app_def port_check_def app_name_of_def
      rsplit1_def)

lemma stop_flicker_env: "handle_stop_command flicker_env init = (stopped, Return)"
  by (simp add: handle_stop_command_def flicker_env_fields py_int_4242 init_def stopped_def
      emit_def tick_def)

lemma wait_flicker_env: "wait_marker 5 flicker_env stopped = Some (polled 3 stopped)"
proof -
  have "\<forall>i<3. pid_file flicker_env (now stopped + i) \<noteq> None"
    "pid_file flicker_env (now stopped + 3) = None"
    by (simp_all add: flicker_env_def stopped_def)
  then show ?thesis by (intro wait_marker_found) simp_all
qed

lemma now_after_wait: "now (tick (polled 3 stopped)) = 5"
  by (simp add: stopped_def)

text \<open>
  Claim C8, as stated, fails in its last clause. The loop ends on a check that finds no
  marker, but start makes its own check of the marker later (line 169), after the
  import and the other checks, and another actor may have put the marker back by then:
  here the marker is away at the loop's last check and present when start begins, and
  start ends with the diagnostic that \<^verbatim>\<open>twistd.pid\<close> was found.
\<close>

theorem restart_marker_back_counterexample:
  "handle_stop_command flicker_env init = (stopped, Return) \<and>
   wait_marker 5 flicker_env stopped = Some (polled 3 stopped) \<and>
   last (trace (polled 3 stopped)) = Exists False \<and>
   pid_file flicker_env (now (tick (polled 3 stopped))) = Some ''4242'' \<and>
   handle_restart_command 5 flicker_env init =
     Some (emit [Exists True, print msg_pid_found] (tick (polled 3 stopped)), Exit (- 1))"
proof -
  let ?s = "tick (polled 3 stopped)"
  have m: "pid_file flicker_env (now ?s) = Some ''4242''"
    by (simp only: now_after_wait flicker_env_fields)
  then have "pid_file flicker_env (now ?s) \<noteq> None" by simp
  then have "start_checks flicker_env ?s =
      Inl (emit [Exists True, print msg_pid_found] ?s, Exit (- 1))"
    using start_checks_marker_reached [OF _ flicker_env_fields(1) flicker_env_checks(1,2)]
    by blast
  then have "handle_start_command 5 flicker_env ?s None False =
      Some (emit [Exists True, print msg_pid_found] ?s, Exit (- 1))"
    by (simp add: eval_nat_numeral start_once_abort)
  then have "handle_restart_command 5 flicker_env init =
     Some (emit [Exists True, print msg_pid_found] ?s, Exit (- 1))"
    by (simp add: handle_restart_command_def stop_flicker_env wait_flicker_env)
  moreover have "last (trace (polled 3 stopped)) = Exists False"
    by (simp add: polled_def)
  ultimately show ?thesis
    using stop_flicker_env wait_flicker_env m by simp
qed

text \<open>
  Claim C8, amended. Restart first performs stop, and ends there when stop ends the
  command (first conjunct). When stop returns, restart checks the marker again and
  again, sleeping 100 milliseconds after every check that finds it; when the marker is
  there for \<open>k\<close> checks and gone at the next, the loop ends after exactly \<open>k\<close> sleeps, and
  only then, one moment later, is start called, without options (second conjunct).
  Nothing bounds the wait: when the marker never disappears the loop does not end,
  whatever the fuel, and start is never called (third conjunct). The marker is absent at
  the last check of the loop, not necessarily when start makes its own check: when it
  is back by then and the other checks of start pass, start ends with the diagnostic
  that \<^verbatim>\<open>twistd.pid\<close> was found and exit code -1 (fourth conjunct).
\<close>

theorem restart_waits_for_marker:
  "(\<forall>s1 oc. handle_stop_command env s = (s1, oc) \<and> oc \<noteq> Return \<longrightarrow>
      handle_restart_command fuel env s = Some (s1, oc)) \<and>
   (\<forall>s1 k. handle_stop_command env s = (s1, Return) \<and>
      (\<forall>i<k. pid_file env (now s1 + i) \<noteq> None) \<and> pid_file env (now s1 + k) = None \<and>
      k < fuel \<longrightarrow>
      wait_marker fuel env s1 = Some (polled k s1) \<and>
      handle_restart_command fuel env s =
        handle_start_command fuel env (tick (polled k s1)) None False) \<and>
   (\<forall>s1. handle_stop_command env s = (s1, Return) \<and>
      (\<forall>i. pid_file env (now s1 + i) \<noteq> None) \<longrightarrow>
      wait_marker fuel env s1 = None \<and> handle_restart_command fuel env s = None) \<and>
   (\<forall>s1 k app name. handle_stop_command env s = (s1, Return) \<and>
      (\<forall>i<k. pid_file env (now s1 + i) \<noteq> None) \<and> pid_file env (now s1 + k) = None \<and>
      k < fuel \<and> pid_file env (Suc (now s1 + k)) \<noteq> None \<and>
      import_services env = Some app \<and> port_check env app = None \<and>
      app_name_of env = Some name \<longrightarrow>
      handle_restart_command fuel env s =
        Some (emit [Exists True, print msg_pid_found] (tick (polled k s1)), Exit (- 1)))"
proof (intro conjI allI impI)
  fix s1 oc
  assume "handle_stop_command env s = (s1, oc) \<and> oc \<noteq> Return"
  then show "handle_restart_command fuel env s = Some (s1, oc)"
    by (cases oc) (simp_all add: handle_restart_command_def)
next
  fix s1 k
  assume a: "handle_stop_command env s = (s1, Return) \<and>
      (\<forall>i<k. pid_file env (now s1 + i) \<noteq> None) \<and> pid_file env (now s1 + k) = None \<and>
      k < fuel"
  then show w: "wait_marker fuel env s1 = Some (polled k s1)"
    using wait_marker_found by blast
  show "handle_restart_command fuel env s =
      handle_start_command fuel env (tick (polled k s1)) None False"
    using a w by (simp add: handle_restart_command_def)
next
  fix s1
  assume a: "handle_stop_command env s = (s1, Return) \<and>
      (\<forall>i. pid_file env (now s1 + i) \<noteq> None)"
  then show w: "wait_marker fuel env s1 = None"
    using wait_marker_never by blast
  show "handle_restart_command fuel env s = None"
    using a w by (simp add: handle_restart_command_def)
next
  fix s1 k app name
  assume a: "handle_stop_command env s = (s1, Return) \<and>
      (\<forall>i<k. pid_file env (now s1 + i) \<noteq> None) \<and> pid_file env (now s1 + k) = None \<and>
      k < fuel \<and> pid_file env (Suc (now s1 + k)) \<noteq> None \<and>
      import_services env = Some app \<and> port_check env app = None \<and>
      app_name_of env = Some name"
  let ?s = "tick (polled k s1)"
  obtain f where f: "fuel = Suc f" using a by (cases fuel) auto
  have w: "wait_marker fuel env s1 = Some (polled k s1)"
    using a wait_marker_found by blast
  have "pid_file env (now ?s) \<noteq> None" using a by simp
  then have "start_checks env ?s = Inl (emit [Exists True, print msg_pid_found] ?s, Exit (- 1))"
    using a start_checks_marker_reached by blast
  then have "handle_start_command fuel env ?s None False =
      Some (emit [Exists True, print msg_pid_found] ?s, Exit (- 1))"
    using f by (simp add: start_once_abort)
  then show "handle_restart_command fuel env s =
      Some (emit [Exists True, print msg_pid_found] ?s, Exit (- 1))"
    using a w by (simp add: handle_restart_command_def)
qed

theorem restart_waits_for_marker_witness:
  "handle_stop_command stopping_env init = (stopped, Return) \<and>
   pid_file stopping_env (now stopped) \<noteq> None \<and>
   pid_file stopping_env (now stopped + 1) \<noteq> None \<and>
   pid_file stopping_env (now stopped + 2) \<noteq> None \<and>
   pid_file stopping_env (now stopped + 3) = None \<and>
   wait_marker 5 stopping_env stopped = Some (polled 3 stopped) \<and>
   handle_restart_command 5 stopping_env init = Some (restarted, Exit 0) \<and>
   handle_stop_command running_env init = (stopped, Return) \<and>
   handle_restart_command 5 running_env init = None \<and>
   handle_restart_command 5 linux_env init =
     Some (emit [Exists False, print msg_pid_missing] init, Exit (- 1)) \<and>
   handle_stop_command flicker_env init = (stopped, Return) \<and>
   pid_file flicker_env (now stopped + 3) = None \<and>
   pid_file flicker_env (Suc (now stopped + 3)) \<noteq> None \<and>
   handle_restart_command 5 flicker_env init =
     Some (emit [Exists True, print msg_pid_found] (tick (polled 3 stopped)), Exit (- 1))"
proof -
  have n: "now stopped = 1" by (simp add: stopped_def)
  have present: "\<forall>i<3. pid_file stopping_env (now stopped + i) \<noteq> None"
    by (simp add: stopping_env_def n)
  have absent: "pid_file stopping_env (now stopped + 3) = None"
    by (simp add: stopping_env_def n)
  note t = restart_waits_for_marker [of stopping_env init 5]
  have found: "wait_marker 5 stopping_env stopped = Some (polled 3 stopped) \<and>
      handle_restart_command 5 stopping_env init =
        handle_start_command 5 stopping_env (tick (polled 3 stopped)) None False"
    using t stop_stopping_env present absent by simp
  have "handle_start_command 5 stopping_env (tick (polled 3 stopped)) None False
      = Some (restarted, Exit 0)"
    using start_stopping_env [of 4] by (simp add: eval_nat_numeral)
  then have 1: "handle_restart_command 5 stopping_env init = Some (restarted, Exit 0)"
    using found by simp
  have r: "handle_stop_command running_env init = (stopped, Return)"
    by (simp add: handle_stop_command_def running_env_fields py_int_4242 init_def stopped_def
        emit_def tick_def)
  have 2: "handle_restart_command 5 running_env init = None"
    using restart_waits_for_marker [of running_env init 5] r
    by (simp add: running_env_fields)
  have l: "handle_stop_command linux_env init =
      (emit [Exists False, print msg_pid_missing] init, Exit (- 1))"
    by (simp add: handle_stop_command_def linux_env_fields)
  have 3: "handle_restart_command 5 linux_env init =
     Some (emit [Exists False, print msg_pid_missing] init, Exit (- 1))"
    using restart_waits_for_marker [of linux_env init 5] l by simp
  have fp: "\<forall>i<3. pid_file flicker_env (now stopped + i) \<noteq> None"
    and fa: "pid_file flicker_env (now stopped + 3) = None"
    and fb: "pid_file flicker_env (Suc (now stopped + 3)) \<noteq> None"
    by (simp_all add: flicker_env_def n)
  have k: "(3::nat) < 5" by simp
  have 4: "handle_restart_command 5 flicker_env init =
     Some (emit [Exists True, print msg_pid_found] (tick (polled 3 stopped)), Exit (- 1))"
    using restart_waits_for_marker [of flicker_env init 5] stop_flicker_env fp fa fb k
      flicker_env_fields(1) flicker_env_checks
    by blast
  show ?thesis
    using stop_stopping_env found 1 r 2 3 absent stop_flicker_env fa fb 4
    by (simp add: stopping_env_def n)
qed

subsection \<open>The start of a restart\<close>

lemma reactor_not_port: "\<not> is_port_option (determine_platform_reactor env app)"
  by (simp add: is_port_option_def determine_platform_reactor_def split: option.splits)

lemma start_args_None_shape:
  "\<exists>pre. start_args env app name None = pre @ [name] \<and> (\<forall>a\<in>set pre. \<not> is_port_option a)"
proof -
  have "\<not> is_port_option ''twistd''" "\<not> is_port_option ''--nodaemon''"
    "\<not> is_port_option ''--syslog''"
    by (simp_all add: is_port_option_def)
  then show ?thesis
    using reactor_not_port [of env app]
    by (auto simp: start_args_def Let_def)
qed

lemma start_args_None_no_port:
  "last (start_args env app name None) = name \<and>
   (\<forall>a\<in>set (butlast (start_args env app name None)). \<not> is_port_option a)"
proof -
  obtain pre where "start_args env app name None = pre @ [name]"
    "\<forall>a\<in>set pre. \<not> is_port_option a"
    using start_args_None_shape by blast
  then show ?thesis by simp
qed

lemma spawn_supervised_events:
  "\<exists>evs. trace (fst (spawn_supervised env s args name d)) = trace s @ evs \<and>
     (\<forall>a. Popen a \<in> set evs \<longrightarrow> a = args) \<and>
     (\<forall>f a. snd (spawn_supervised env s args name d) \<noteq> Done (Execlp f a))"
  by (simp add: spawn_supervised_def report_def print_def Let_def split: option.splits)

lemma start_once_None_events:
  "\<exists>evs. trace (fst (start_once env s None d)) = trace s @ evs \<and>
     (\<forall>a. Popen a \<in> set evs \<or> (\<exists>f. snd (start_once env s None d) = Done (Execlp f a))
        \<longrightarrow> configured_args env = Some a)"
proof (cases "start_checks env s")
  case (Inl x)
  then obtain s1 oc where c: "start_checks env s = Inl (s1, oc)" by (cases x) auto
  then show ?thesis using start_checks_Inl [OF c] by (auto simp: start_once_abort)
next
  case (Inr x)
  then obtain s1 app name where c: "start_checks env s = Inr (s1, app, name)"
    by (cases x) auto
  have s1: "s1 = emit [Exists False] s" and cfg: "configured_args env = Some (start_args env app name None)"
    using start_checks_Inr [OF c] by (simp_all add: configured_args_def)
  show ?thesis
  proof (cases "in_heroku env \<or> development app")
    case True
    then show ?thesis using start_once_exec [OF c True, of None d] s1 cfg by simp
  next
    case False
    let ?r = "spawn_supervised env s1 (start_args env app name None) name d"
    obtain evs where e: "trace (fst ?r) = trace s1 @ evs"
      "\<forall>a. Popen a \<in> set evs \<longrightarrow> a = start_args env app name None"
      "\<forall>f a. snd ?r \<noteq> Done (Execlp f a)"
      using spawn_supervised_events by blast
    have o: "start_once env s None d = ?r"
      using start_once_spawn [OF c, of None d] False by simp
    have "trace (fst (start_once env s None d)) = trace s @ (Exists False # evs)"
      using o e(1) s1 by simp
    moreover have "\<forall>a. Popen a \<in> set (Exists False # evs) \<or>
        (\<exists>f. snd (start_once env s None d) = Done (Execlp f a)) \<longrightarrow> configured_args env = Some a"
      using o e(2,3) cfg by auto
    ultimately show ?thesis by blast
  qed
qed

lemma start_None_events:
  assumes "handle_start_command n env s None d = Some (s', oc)"
  shows "\<exists>evs. trace s' = trace s @ evs \<and>
     (\<forall>a. Popen a \<in> set evs \<or> (\<exists>f. oc = Execlp f a) \<longrightarrow> configured_args env = Some a)"
  using assms
proof (induction n arbitrary: s d)
  case 0
  then show ?case by simp
next
  case (Suc n)
  obtain s1 att where o: "start_once env s None d = (s1, att)"
    by (cases "start_once env s None d")
  obtain evs where e: "trace s1 = trace s @ evs"
    "\<forall>a. Popen a \<in> set evs \<or> (\<exists>f. att = Done (Execlp f a)) \<longrightarrow> configured_args env = Some a"
    using start_once_None_events [of env s d] o by auto
  show ?case
  proof (cases att)
    case (Done oc')
    then have "s' = s1" "oc = oc'" using Suc.prems o by simp_all
    then show ?thesis using e Done by auto
  next
    case Retry
    then have "handle_start_command n env s1 None True = Some (s', oc)"
      using Suc.prems o by simp
    then obtain evs' where e': "trace s' = trace s1 @ evs'"
      "\<forall>a. Popen a \<in> set evs' \<or> (\<exists>f. oc = Execlp f a) \<longrightarrow> configured_args env = Some a"
      using Suc.IH by blast
    have "trace s' = trace s @ (evs @ evs')" using e(1) e'(1) by simp
    moreover have "\<forall>a. Popen a \<in> set (evs @ evs') \<or> (\<exists>f. oc = Execlp f a)
        \<longrightarrow> configured_args env = Some a"
      using e(2) e'(2) by auto
    ultimately show ?thesis by blast
  qed
qed

lemma stop_events:
  "\<exists>evs. trace (fst (handle_stop_command env s)) = trace s @ evs \<and>
     (\<forall>a. Popen a \<notin> set evs) \<and> (\<forall>f a. snd (handle_stop_command env s) \<noteq> Execlp f a)"
  by (auto simp: handle_stop_command_def print_def Let_def split: option.splits)

lemma wait_marker_events:
  assumes "wait_marker fuel env s = Some s'"
  shows "\<exists>evs. trace s' = trace s @ evs \<and> (\<forall>a. Popen a \<notin> set evs)"
  using assms
proof (induction fuel arbitrary: s)
  case 0
  then show ?case by simp
next
  case (Suc fuel)
  show ?case
  proof (cases "pid_file env (now s) \<noteq> None")
    case True
    let ?s = "tick (emit [Exists True, Sleep 100] s)"
    have "wait_marker fuel env ?s = Some s'" using Suc.prems True by simp
    then obtain evs where "trace s' = trace ?s @ evs" "\<forall>a. Popen a \<notin> set evs"
      using Suc.IH by blast
    then have "trace s' = trace s @ ([Exists True, Sleep 100] @ evs) \<and>
        (\<forall>a. Popen a \<notin> set ([Exists True, Sleep 100] @ evs))"
      by simp
    then show ?thesis by blast
  next
    case False
    then have "s' = emit [Exists False] s" using Suc.prems by simp
    then have "trace s' = trace s @ [Exists False] \<and> (\<forall>a. Popen a \<notin> set [Exists False])"
      by simp
    then show ?thesis by blast
  qed
qed

text \<open>
  Claim C10: the start that restart performs is called without options, so in every
  restart that ends, every argument vector handed to a child, supervised or replacing
  the process, is the one built from the configuration alone: its last element is the
  application's name, so nothing follows the name, and no element before the name is a
  port override.
\<close>

theorem restart_never_overrides_port:
  assumes "handle_restart_command fuel env s = Some (s', oc)"
  shows
    "\<exists>evs. trace s' = trace s @ evs \<and>
       (\<forall>args. Popen args \<in> set evs \<or> (\<exists>f. oc = Execlp f args) \<longrightarrow>
          configured_args env = Some args \<and>
          Some (last args) = app_name_of env \<and>
          (\<forall>a\<in>set (butlast args). \<not> is_port_option a))"
proof -
  obtain s1 oc1 where st: "handle_stop_command env s = (s1, oc1)"
    by (cases "handle_stop_command env s")
  obtain evs1 where e1: "trace s1 = trace s @ evs1" "\<forall>a. Popen a \<notin> set evs1"
    "\<forall>f a. oc1 \<noteq> Execlp f a"
    using stop_events [of env s] st by auto
  have shape: "Some (last args) = app_name_of env \<and> (\<forall>a\<in>set (butlast args). \<not> is_port_option a)"
    if "configured_args env = Some args" for args
    using that start_args_None_no_port
    by (auto simp: configured_args_def split: option.splits)
  show ?thesis
  proof (cases "oc1 = Return")
    case False
    then have "s' = s1" "oc = oc1"
      using assms st by (cases oc1; simp add: handle_restart_command_def)+
    then show ?thesis using e1 by auto
  next
    case True
    then obtain s2 where w: "wait_marker fuel env s1 = Some s2"
      and run: "handle_start_command fuel env (tick s2) None False = Some (s', oc)"
      using assms st by (auto simp: handle_restart_command_def split: option.splits)
    obtain evs2 where e2: "trace s2 = trace s1 @ evs2" "\<forall>a. Popen a \<notin> set evs2"
      using wait_marker_events [OF w] by blast
    obtain evs3 where e3: "trace s' = trace s2 @ evs3"
      "\<forall>a. Popen a \<in> set evs3 \<or> (\<exists>f. oc = Execlp f a) \<longrightarrow> configured_args env = Some a"
      using start_None_events [OF run] by auto
    have "trace s' = trace s @ (evs1 @ evs2 @ evs3)"
      using e1(1) e2(1) e3(1) by simp
    moreover have "\<forall>args. Popen args \<in> set (evs1 @ evs2 @ evs3) \<or> (\<exists>f. oc = Execlp f args) \<longrightarrow>
          configured_args env = Some args \<and>
          Some (last args) = app_name_of env \<and>
          (\<forall>a\<in>set (butlast args). \<not> is_port_option a)"
      using e1(2) e2(2) e3(2) shape by auto
    ultimately show ?thesis by blast
  qed
qed

theorem restart_never_overrides_port_witness:
  "handle_restart_command 5 stopping_env init = Some (restarted, Exit 0) \<and>
   Popen [''twistd'', ''--reactor=epoll'', ''--syslog'', ''demo_app''] \<in> set (trace restarted) \<and>
   configured_args stopping_env =
     Some [''twistd'', ''--reactor=epoll'', ''--syslog'', ''demo_app''] \<and>
   app_name_of stopping_env = Some ''demo_app'' \<and>
   filter is_port_option [''twistd'', ''--reactor=epoll'', ''--syslog''] = []"
proof -
  let ?a = "[''twistd'', ''--reactor=epoll'', ''--syslog'', ''demo_app'']"
  obtain evs where e: "trace restarted = trace init @ evs"
    "\<forall>args. Popen args \<in> set evs \<or> (\<exists>f. Exit 0 = Execlp f args) \<longrightarrow>
          configured_args stopping_env = Some args \<and>
          Some (last args) = app_name_of stopping_env \<and>
          (\<forall>a\<in>set (butlast args). \<not> is_port_option a)"
    using restart_never_overrides_port [OF restart_stopping_env] by blast
  have "evs = trace restarted" using e(1) by (simp add: init_def)
  then have p: "Popen ?a \<in> set evs" by (simp add: restarted_def)
  have "configured_args stopping_env = Some ?a \<and> Some (last ?a) = app_name_of stopping_env \<and>
      (\<forall>a\<in>set (butlast ?a). \<not> is_port_option a)"
    using e(2) p by blast
  then have "configured_args stopping_env = Some ?a \<and> app_name_of stopping_env = Some ''demo_app'' \<and>
      filter is_port_option [''twistd'', ''--reactor=epoll'', ''--syslog''] = []"
    by simp
  then show ?thesis
    using restart_stopping_env by (simp add: restarted_def)
qed

end
